theory Spec2Isabelle
  imports Complex_Main "HOL-Library.AList" "HOL-Library.Multiset" "HOL-Library.Product_Lexorder"
begin

section \<open>Ticket analytics route: data model\<close>

text \<open>
  The route handler of \<^verbatim>\<open>src/unnamed/part_000\<close> reads tickets and persons through the
  Prisma client and answers with JSON. The Prisma schema is not among the sources, so the
  records below carry the fields that the data model of the specification lists and that
  the sources use (\<^verbatim>\<open>columns.tsx\<close>, \<^verbatim>\<open>ticket-info.tsx\<close>).

  \<^verbatim>\<open>Status\<close> is a Prisma enum; the handler names its members \<^verbatim>\<open>Open\<close> and
  \<^verbatim>\<open>Closed\<close>. Any further member is kept by its name. \<^verbatim>\<open>Type\<close> and \<^verbatim>\<open>Priority\<close> are
  enums whose members the handler never names: a value is its member name, as it is at run
  time in JavaScript.
\<close>

datatype Status = Open | Closed | OtherStatus string

type_synonym Type = string

type_synonym Priority = string

text \<open>
  A \<^verbatim>\<open>Date\<close> is held as its UTC calendar fields, the ones \<^verbatim>\<open>toISOString\<close> prints
  (\<open>month\<close> is the calendar month 1 to 12). The database compares and groups timestamps
  chronologically, which on calendar fields is the lexicographic order of \<open>date_key\<close>.
\<close>

record Date =
  year :: int
  month :: nat
  day :: nat
  hours :: nat
  minutes :: nat
  seconds :: nat
  milliseconds :: nat

definition date_key :: "Date \<Rightarrow> int \<times> nat \<times> nat \<times> nat \<times> nat \<times> nat \<times> nat" where
  "date_key d = (year d, month d, day d, hours d, minutes d, seconds d, milliseconds d)"

record Ticket =
  ticket_id :: string
  title :: string
  description :: string
  status :: Status
  type :: Type
  priority :: Priority
  createdAt :: Date
  updatedAt :: Date
  userId :: "nat option"
  clientId :: nat

record Person =
  person_id :: nat
  firstName :: string
  lastName :: string
  email :: string
  avatar :: "string option"
  phone :: string

section \<open>JavaScript values, JSON and responses\<close>

text \<open>
  A JavaScript number is an IEEE 754 double: a finite value, \<^verbatim>\<open>NaN\<close> or an infinity. A
  finite double is held as the rational it denotes (the sign of zero is dropped: JSON
  writes both zeros as \<^verbatim>\<open>0\<close>).
\<close>

datatype jsnum = Finite rat | NaN | PosInfinity | NegInfinity

text \<open>
  \<open>to_double q\<close> is the double nearest to \<open>q\<close>, ties to the even significand: 53
  significant bits from the exponent of \<open>q\<close>, the fixed quantum \<open>2 ^ - 1074\<close> below
  \<open>2 ^ - 1022\<close>, and an infinity past the largest double.
\<close>

function bit_length :: "int \<Rightarrow> nat" where
  "bit_length n = (if n \<le> 0 then 0 else Suc (bit_length (n div 2)))"
  by pat_completeness auto
termination
  by (relation "measure nat") auto

declare bit_length.simps [simp del]

definition pow2 :: "int \<Rightarrow> rat" where
  "pow2 e = (if 0 \<le> e then 2 ^ nat e else 1 / 2 ^ nat (- e))"

text \<open>For \<open>0 < q\<close>, the exponent \<open>e\<close> with \<open>2 ^ e \<le> q < 2 ^ (e + 1)\<close>.\<close>

definition floor_log2 :: "rat \<Rightarrow> int" where
  "floor_log2 q =
     (let k = int (bit_length (fst (quotient_of q))) - int (bit_length (snd (quotient_of q)))
      in if pow2 k \<le> q then k else k - 1)"

definition round_half_even :: "rat \<Rightarrow> int" where
  "round_half_even q =
     (let f = \<lfloor>q\<rfloor>; r = q - of_int f
      in if r < 1 / 2 then f else if 1 / 2 < r then f + 1 else if even f then f else f + 1)"

definition max_double :: rat where
  "max_double = (2 ^ 53 - 1) * 2 ^ 971"

definition to_double :: "rat \<Rightarrow> jsnum" where
  "to_double q =
     (if q = 0 then Finite 0
      else
        let a = \<bar>q\<bar>;
            quantum = pow2 (max (floor_log2 a) (- 1022) - 52);
            v = of_int (round_half_even (a / quantum)) * quantum
        in if max_double < v then (if 0 < q then PosInfinity else NegInfinity)
           else Finite (if 0 < q then v else - v))"

text \<open>Division and multiplication of doubles: the exact result, rounded once.\<close>

fun js_divide :: "jsnum \<Rightarrow> jsnum \<Rightarrow> jsnum" where
  "js_divide (Finite a) (Finite b) =
     (if b = 0 then (if a = 0 then NaN else if 0 < a then PosInfinity else NegInfinity)
      else to_double (a / b))"
| "js_divide (Finite a) PosInfinity = Finite 0"
| "js_divide (Finite a) NegInfinity = Finite 0"
| "js_divide PosInfinity (Finite b) = (if 0 \<le> b then PosInfinity else NegInfinity)"
| "js_divide NegInfinity (Finite b) = (if 0 \<le> b then NegInfinity else PosInfinity)"
| "js_divide _ _ = NaN"

fun js_times :: "jsnum \<Rightarrow> jsnum \<Rightarrow> jsnum" where
  "js_times (Finite a) (Finite b) = to_double (a * b)"
| "js_times NaN _ = NaN"
| "js_times _ NaN = NaN"
| "js_times PosInfinity (Finite b) =
     (if b = 0 then NaN else if 0 < b then PosInfinity else NegInfinity)"
| "js_times NegInfinity (Finite b) =
     (if b = 0 then NaN else if 0 < b then NegInfinity else PosInfinity)"
| "js_times (Finite a) PosInfinity =
     (if a = 0 then NaN else if 0 < a then PosInfinity else NegInfinity)"
| "js_times (Finite a) NegInfinity =
     (if a = 0 then NaN else if 0 < a then NegInfinity else PosInfinity)"
| "js_times PosInfinity PosInfinity = PosInfinity"
| "js_times NegInfinity NegInfinity = PosInfinity"
| "js_times PosInfinity NegInfinity = NegInfinity"
| "js_times NegInfinity PosInfinity = NegInfinity"

datatype jsval =
    Undefined
  | Null
  | Num jsnum
  | Str string
  | DateV Date
  | Arr "jsval list"
  | Obj "(string \<times> jsval) list"

text \<open>A count as a JavaScript number (counts are far below \<open>2 ^ 53\<close>, hence exact).\<close>

definition num :: "nat \<Rightarrow> jsval" where
  "num n = Num (Finite (of_nat n))"

text \<open>The JSON document that a response body denotes.\<close>

datatype json =
    JNull
  | JNumber rat
  | JString string
  | JArray "json list"
  | JObject "(string \<times> json) list"

subsection \<open>Date.prototype.toISOString\<close>

definition digit_char :: "nat \<Rightarrow> char" where
  "digit_char n = ''0123456789'' ! n"

text \<open>\<open>pad w n\<close> is \<open>n\<close> in decimal on \<open>w\<close> digits, zero-padded.\<close>

fun pad :: "nat \<Rightarrow> nat \<Rightarrow> string" where
  "pad 0 n = []"
| "pad (Suc w) n = pad w (n div 10) @ [digit_char (n mod 10)]"

text \<open>
  ECMAScript prints years 0 to 9999 on four digits and every other year in the expanded
  format, a sign and six digits.
\<close>

definition iso_year :: "int \<Rightarrow> string" where
  "iso_year y =
     (if 0 \<le> y \<and> y \<le> 9999 then pad 4 (nat y)
      else (if y < 0 then ''-'' else ''+'') @ pad 6 (nat \<bar>y\<bar>))"

definition toISOString :: "Date \<Rightarrow> string" where
  "toISOString d =
     iso_year (year d) @ ''-'' @ pad 2 (month d) @ ''-'' @ pad 2 (day d) @ ''T'' @
     pad 2 (hours d) @ '':'' @ pad 2 (minutes d) @ '':'' @ pad 2 (seconds d) @ ''.'' @
     pad 3 (milliseconds d) @ ''Z''"

subsection \<open>JSON.stringify\<close>

text \<open>
  \<^verbatim>\<open>JSON.stringify\<close> writes a non-finite number as \<^verbatim>\<open>null\<close> and a \<^verbatim>\<open>Date\<close> as its
  ISO string; arrays and objects keep their order. \<^verbatim>\<open>undefined\<close> has no JSON text
  (\<open>None\<close>): an array writes \<^verbatim>\<open>null\<close> in its place and an object leaves the property
  out.
\<close>

primrec json_of :: "jsval \<Rightarrow> json option" where
  "json_of Undefined = None"
| "json_of Null = Some JNull"
| "json_of (Num n) = Some (case n of Finite r \<Rightarrow> JNumber r | _ \<Rightarrow> JNull)"
| "json_of (Str s) = Some (JString s)"
| "json_of (DateV d) = Some (JString (toISOString d))"
| "json_of (Arr vs) =
     Some (JArray (map (\<lambda>j. case j of None \<Rightarrow> JNull | Some x \<Rightarrow> x) (map json_of vs)))"
| "json_of (Obj kvs) =
     Some (JObject (List.map_filter (\<lambda>kj. map_option (Pair (fst kj)) (snd kj))
                      (map (map_prod id json_of) kvs)))"

text \<open>
  The handler only ever stringifies an object or an array, which always have a JSON
  text. For \<^verbatim>\<open>undefined\<close> itself, where \<^verbatim>\<open>JSON.stringify\<close> returns no text and the
  response would have no body, the body is written \<open>JNull\<close>; no report reaches this case.
\<close>

definition JSON_stringify :: "jsval \<Rightarrow> json" where
  "JSON_stringify v = (case json_of v of None \<Rightarrow> JNull | Some j \<Rightarrow> j)"

record Response =
  resp_status :: nat
  resp_headers :: "(string \<times> string) list"
  resp_body :: json

text \<open>
  \<^verbatim>\<open>new Response(JSON.stringify(v), { status: s, headers: { "Content-Type":
  "application/json" } })\<close>, the only way the handler builds a response.
\<close>

definition json_response :: "nat \<Rightarrow> jsval \<Rightarrow> Response" where
  "json_response s v =
     \<lparr>resp_status = s,
      resp_headers = [(''Content-Type'', ''application/json'')],
      resp_body = JSON_stringify v\<rparr>"

section \<open>The store behind the Prisma client\<close>

text \<open>
  The where-clauses the handler writes constrain \<^verbatim>\<open>status\<close>, \<^verbatim>\<open>userId\<close> and
  \<^verbatim>\<open>clientId\<close> by equality; \<open>None\<close> is an absent key.
\<close>

record TicketWhere =
  where_status :: "Status option"
  where_userId :: "nat option"
  where_clientId :: "nat option"

definition matches :: "TicketWhere \<Rightarrow> Ticket \<Rightarrow> bool" where
  "matches w t \<longleftrightarrow>
     (case where_status w of None \<Rightarrow> True | Some s \<Rightarrow> status t = s) \<and>
     (case where_userId w of None \<Rightarrow> True | Some u \<Rightarrow> userId t = Some u) \<and>
     (case where_clientId w of None \<Rightarrow> True | Some c \<Rightarrow> clientId t = c)"

datatype field = F_createdAt | F_type | F_userId | F_clientId

datatype query =
    Ticket_findMany_recent nat
  | Ticket_count TicketWhere
  | Ticket_groupBy field
  | Person_findUnique nat

text \<open>
  The store holds the rows and says which queries it fails on. One run of a report never
  issues the same query twice (lemma \<open>queries_distinct\<close> below), so a predicate on
  queries expresses every pattern of failures within a run.
\<close>

record db =
  tickets :: "Ticket list"
  persons :: "Person list"
  failing :: "query \<Rightarrow> bool"

definition store_up :: "db \<Rightarrow> bool" where
  "store_up d \<longleftrightarrow> (\<forall>q. \<not> failing d q)"

datatype error = PrismaError | TypeError

text \<open>
  An asynchronous computation is the list of queries it sent to the store and its outcome:
  the exception it was rejected with, or its value.
\<close>

type_synonym 'a io = "query list \<times> (error + 'a)"

definition return :: "'a \<Rightarrow> 'a io" where
  "return x = ([], Inr x)"

definition throw :: "error \<Rightarrow> 'a io" where
  "throw e = ([], Inl e)"

definition await :: "'a io \<Rightarrow> ('a \<Rightarrow> 'b io) \<Rightarrow> 'b io" where
  "await m k =
     (case snd m of
        Inl e \<Rightarrow> (fst m, Inl e)
      | Inr x \<Rightarrow> (fst m @ fst (k x), snd (k x)))"

definition try_catch :: "'a io \<Rightarrow> (error \<Rightarrow> 'a io) \<Rightarrow> 'a io" where
  "try_catch m h =
     (case snd m of
        Inl e \<Rightarrow> (fst m @ fst (h e), snd (h e))
      | Inr x \<Rightarrow> m)"

text \<open>
  \<^verbatim>\<open>Promise.all\<close> over promises that are already running: every one of them runs to its
  end, whatever the others do, and the whole is rejected as soon as one is. The queries
  of the callbacks interleave in an order the event loop decides; they are listed here
  callback by callback.
\<close>

fun promise_all :: "'a io list \<Rightarrow> 'a list io" where
  "promise_all [] = ([], Inr [])"
| "promise_all (m # ms) =
     (fst m @ fst (promise_all ms),
      case snd m of
        Inl e \<Rightarrow> Inl e
      | Inr x \<Rightarrow> (case snd (promise_all ms) of Inl e \<Rightarrow> Inl e | Inr xs \<Rightarrow> Inr (x # xs)))"

fun array_map :: "('a \<Rightarrow> 'b io) \<Rightarrow> 'a list \<Rightarrow> 'b list io" where
  "array_map f [] = return []"
| "array_map f (x # xs) =
     await (f x) (\<lambda>y. await (array_map f xs) (\<lambda>ys. return (y # ys)))"

definition run_query :: "db \<Rightarrow> query \<Rightarrow> 'a \<Rightarrow> 'a io" where
  "run_query d q result = ([q], if failing d q then Inl PrismaError else Inr result)"

text \<open>\<^verbatim>\<open>prisma.ticket.count({ where })\<close>\<close>

definition prisma_ticket_count :: "db \<Rightarrow> TicketWhere \<Rightarrow> nat io" where
  "prisma_ticket_count d w =
     run_query d (Ticket_count w) (length (filter (matches w) (tickets d)))"

definition no_where :: TicketWhere where
  "no_where = \<lparr>where_status = None, where_userId = None, where_clientId = None\<rparr>"

text \<open>
  \<^verbatim>\<open>prisma.ticket.findMany({ orderBy: { createdAt: "desc" }, take: n })\<close>. The database
  is free in the order of tickets with equal timestamps; the properties below do not
  depend on it.
\<close>

definition prisma_ticket_findMany_recent :: "db \<Rightarrow> nat \<Rightarrow> Ticket list io" where
  "prisma_ticket_findMany_recent d n =
     run_query d (Ticket_findMany_recent n)
       (take n (rev (sort_key (\<lambda>t. date_key (createdAt t)) (tickets d))))"

text \<open>
  \<^verbatim>\<open>groupBy({ by: [col], _count: { _all: true } })\<close>: one row per distinct value of the
  column, with the number of tickets that have it. A null \<^verbatim>\<open>userId\<close> is a value like
  any other and makes a group. Without \<^verbatim>\<open>orderBy\<close> the order of the rows is the
  database's; the properties below do not depend on it.
\<close>

definition group_count :: "('r \<Rightarrow> 'k) \<Rightarrow> 'r list \<Rightarrow> ('k \<times> nat) list" where
  "group_count col rows =
     map (\<lambda>k. (k, length (filter (\<lambda>r. col r = k) rows))) (remdups (map col rows))"

definition prisma_ticket_groupBy_createdAt :: "db \<Rightarrow> (Date \<times> nat) list io" where
  "prisma_ticket_groupBy_createdAt d =
     run_query d (Ticket_groupBy F_createdAt)
       (sort_key (\<lambda>item. date_key (fst item)) (group_count createdAt (tickets d)))"

definition prisma_ticket_groupBy_type :: "db \<Rightarrow> (Type \<times> nat) list io" where
  "prisma_ticket_groupBy_type d =
     run_query d (Ticket_groupBy F_type) (group_count type (tickets d))"

definition prisma_ticket_groupBy_userId :: "db \<Rightarrow> (nat option \<times> nat) list io" where
  "prisma_ticket_groupBy_userId d =
     run_query d (Ticket_groupBy F_userId) (group_count userId (tickets d))"

text \<open>
  The company report also asks for \<^verbatim>\<open>_count.status\<close> and never reads it (nor
  \<^verbatim>\<open>_count._all\<close>).
\<close>

definition prisma_ticket_groupBy_clientId :: "db \<Rightarrow> (nat \<times> nat) list io" where
  "prisma_ticket_groupBy_clientId d =
     run_query d (Ticket_groupBy F_clientId) (group_count clientId (tickets d))"

text \<open>\<^verbatim>\<open>prisma.person.findUnique({ where: { id } })\<close>; \<^verbatim>\<open>id\<close> is the primary key.\<close>

definition prisma_person_findUnique :: "db \<Rightarrow> nat \<Rightarrow> Person option io" where
  "prisma_person_findUnique d i =
     run_query d (Person_findUnique i) (find (\<lambda>p. person_id p = i) (persons d))"

section \<open>The metadata catalog\<close>

text \<open>
  \<^verbatim>\<open>ticketMetadata\<close> of \<^verbatim>\<open>@/prisma/ticketMetadata\<close> is not among the sources. The reports
  take the entries of the object \<^verbatim>\<open>ticketMetadata.type\<close> as a parameter
  \<open>ticketMetadata :: Type \<Rightarrow> MetaEntry option\<close>: its own properties, each with what
  reading \<^verbatim>\<open>.text\<close>, \<^verbatim>\<open>.color\<close> and \<^verbatim>\<open>.icon\<close> of the entry gives (\<open>Undefined\<close> for a
  property the entry lacks or that JSON cannot write). \<open>None\<close>: the catalog has no entry
  for the type.
\<close>

record MetaEntry =
  meta_text :: jsval
  meta_color :: jsval
  meta_icon :: jsval

text \<open>
  \<^verbatim>\<open>ticketMetadata.type\<close> is an ordinary object, so \<^verbatim>\<open>ticketMetadata.type[k]\<close> falls back
  on \<^verbatim>\<open>Object.prototype\<close> when the catalog has no entry \<open>k\<close>: for the names below the
  value is an inherited member (a function, or the prototype itself for
  \<^verbatim>\<open>__proto__\<close>), and for every other name it is \<^verbatim>\<open>undefined\<close>.
\<close>

definition object_prototype_members :: "string list" where
  "object_prototype_members =
     [''constructor'', ''hasOwnProperty'', ''isPrototypeOf'', ''propertyIsEnumerable'',
      ''toLocaleString'', ''toString'', ''valueOf'', ''__proto__'',
      ''__defineGetter__'', ''__defineSetter__'', ''__lookupGetter__'', ''__lookupSetter__'']"

datatype property = OwnEntry MetaEntry | InheritedMember | NoProperty

definition type_property :: "(Type \<Rightarrow> MetaEntry option) \<Rightarrow> Type \<Rightarrow> property" where
  "type_property ticketMetadata k =
     (case ticketMetadata k of
        Some entry \<Rightarrow> OwnEntry entry
      | None \<Rightarrow> if k \<in> set object_prototype_members then InheritedMember else NoProperty)"

text \<open>
  Reading a property of the value: a \<^verbatim>\<open>TypeError\<close> on \<^verbatim>\<open>undefined\<close>, \<^verbatim>\<open>undefined\<close>
  on an inherited member (none of them has a \<^verbatim>\<open>text\<close>, \<^verbatim>\<open>color\<close> or \<^verbatim>\<open>icon\<close>), the
  field on an entry.
\<close>

definition read_field :: "property \<Rightarrow> (MetaEntry \<Rightarrow> jsval) \<Rightarrow> jsval io" where
  "read_field p field =
     (case p of
        NoProperty \<Rightarrow> throw TypeError
      | InheritedMember \<Rightarrow> return Undefined
      | OwnEntry entry \<Rightarrow> return (field entry))"

section \<open>The reports\<close>

definition message :: "string \<Rightarrow> jsval" where
  "message s = Obj [(''message'', Str s)]"

text \<open>The accented letters of the messages, in UTF-8.\<close>

definition o_acute :: string where
  "o_acute = [CHR 0xC3, CHR 0xB3]"

definition i_acute :: string where
  "i_acute = [CHR 0xC3, CHR 0xAD]"

definition e_acute :: string where
  "e_acute = [CHR 0xC3, CHR 0xA9]"

fun status_name :: "Status \<Rightarrow> string" where
  "status_name Open = ''Open''"
| "status_name Closed = ''Closed''"
| "status_name (OtherStatus s) = s"

text \<open>A ticket row as \<^verbatim>\<open>findMany\<close> returns it: an object of its scalar fields.\<close>

definition ticket_obj :: "Ticket \<Rightarrow> jsval" where
  "ticket_obj t =
     Obj [(''id'', Str (ticket_id t)),
          (''title'', Str (title t)),
          (''description'', Str (description t)),
          (''status'', Str (status_name (status t))),
          (''type'', Str (type t)),
          (''priority'', Str (priority t)),
          (''createdAt'', DateV (createdAt t)),
          (''updatedAt'', DateV (updatedAt t)),
          (''userId'', case userId t of None \<Rightarrow> Null | Some u \<Rightarrow> num u),
          (''clientId'', num (clientId t))]"

definition getRecentTickets :: "db \<Rightarrow> Response io" where
  "getRecentTickets d =
     try_catch
       (await (prisma_ticket_findMany_recent d 5) (\<lambda>tickets.
        return (json_response 200 (Arr (map ticket_obj tickets)))))
       (\<lambda>error. return (json_response 500
          (message ''Hubo un error al obtener los tickets recientes'')))"

definition getSummary :: "db \<Rightarrow> Response io" where
  "getSummary d =
     try_catch
       (await (prisma_ticket_count d no_where) (\<lambda>totalTickets.
        await (prisma_ticket_count d (no_where\<lparr>where_status := Some Open\<rparr>)) (\<lambda>pendingTickets.
        await (prisma_ticket_count d (no_where\<lparr>where_status := Some Closed\<rparr>)) (\<lambda>completedTickets.
        return (json_response 200
          (Obj [(''totalTickets'', num totalTickets),
                (''pendingTickets'', num pendingTickets),
                (''completedTickets'', num completedTickets)]))))))
       (\<lambda>error. return (json_response 500
          (message ''Hubo un error al obtener el resumen de tickets'')))"

definition getResolutionRate :: "db \<Rightarrow> Response io" where
  "getResolutionRate d =
     try_catch
       (await (prisma_ticket_count d no_where) (\<lambda>totalTickets.
        await (prisma_ticket_count d (no_where\<lparr>where_status := Some Closed\<rparr>)) (\<lambda>completedTickets.
        let resolutionRate =
              js_times
                (js_divide (Finite (of_nat completedTickets)) (Finite (of_nat totalTickets)))
                (Finite 100)
        in return (json_response 200 (Obj [(''resolutionRate'', Num resolutionRate)])))))
       (\<lambda>error. return (json_response 500
          (message (''Hubo un error al obtener la tasa de resoluci'' @ o_acute @ ''n''))))"

text \<open>
  The accumulator of \<^verbatim>\<open>reduce\<close> is an object from month keys to
  \<^verbatim>\<open>{ month, tickets }\<close>: an association list in insertion order, the order in which
  \<^verbatim>\<open>Object.values\<close> lists keys that are not array indices. A month key starts with a
  digit or a sign, so it is never a property of \<^verbatim>\<open>Object.prototype\<close>.
\<close>

definition monthly_reducer ::
  "(string \<times> string \<times> nat) list \<Rightarrow> Date \<times> nat \<Rightarrow> (string \<times> string \<times> nat) list" where
  "monthly_reducer acc item =
     (let month = take 7 (toISOString (fst item));
          acc1 = (if map_of acc month = None then AList.update month (month, 0) acc else acc)
      in AList.map_entry month (\<lambda>e. (fst e, snd e + snd item)) acc1)"

definition getMonthlySummary :: "db \<Rightarrow> Response io" where
  "getMonthlySummary d =
     try_catch
       (await (prisma_ticket_groupBy_createdAt d) (\<lambda>monthlyData.
        let monthlySummary = foldl monthly_reducer [] monthlyData
        in return (json_response 200
             (Arr (map (\<lambda>e. Obj [(''month'', Str (fst e)), (''tickets'', num (snd e))])
                       (map snd monthlySummary))))))
       (\<lambda>error. return (json_response 500
          (message ''Hubo un error al obtener el resumen mensual de tickets'')))"

text \<open>
  The callback of \<^verbatim>\<open>map\<close> reads \<^verbatim>\<open>.text\<close>, \<^verbatim>\<open>.color\<close> and \<^verbatim>\<open>.icon\<close> of
  \<^verbatim>\<open>ticketMetadata.type[item.type]\<close> in this order; a \<^verbatim>\<open>TypeError\<close> is thrown inside
  the \<^verbatim>\<open>try\<close> block.
\<close>

definition category_item :: "(Type \<Rightarrow> MetaEntry option) \<Rightarrow> Type \<times> nat \<Rightarrow> jsval io" where
  "category_item ticketMetadata item =
     await (read_field (type_property ticketMetadata (fst item)) meta_text) (\<lambda>label.
     await (read_field (type_property ticketMetadata (fst item)) meta_color) (\<lambda>color.
     await (read_field (type_property ticketMetadata (fst item)) meta_icon) (\<lambda>icon.
     return (Obj [(''type'', label),
                  (''_count'', Obj [(''_all'', num (snd item))]),
                  (''color'', color),
                  (''icon'', icon)]))))"

definition getByCategory :: "(Type \<Rightarrow> MetaEntry option) \<Rightarrow> db \<Rightarrow> Response io" where
  "getByCategory ticketMetadata d =
     try_catch
       (await (prisma_ticket_groupBy_type d) (\<lambda>ticketsByCategory.
        await (array_map (category_item ticketMetadata) ticketsByCategory) (\<lambda>result.
        return (json_response 200 (Arr result)))))
       (\<lambda>error. return (json_response 500
          (message (''Hubo un error al obtener el desglose por categor'' @ i_acute @ ''a''))))"

text \<open>
  The callback of the technician report. It only runs on rows that passed the filter
  \<^verbatim>\<open>item.userId !== null\<close>; a null id would be refused by \<^verbatim>\<open>findUnique\<close>.
\<close>

definition technician_item :: "db \<Rightarrow> nat option \<times> nat \<Rightarrow> jsval option io" where
  "technician_item d item =
     (case fst item of
        None \<Rightarrow> throw PrismaError
      | Some uid \<Rightarrow>
          await (prisma_person_findUnique d uid) (\<lambda>user.
          case user of
            None \<Rightarrow> return None
          | Some u \<Rightarrow>
              await (prisma_ticket_count d
                (no_where\<lparr>where_userId := Some uid, where_status := Some Closed\<rparr>)) (\<lambda>completedTickets.
              await (prisma_ticket_count d
                (no_where\<lparr>where_userId := Some uid, where_status := Some Open\<rparr>)) (\<lambda>pendingTickets.
              return (Some (Obj [(''name'', Str (firstName u @ '' '' @ lastName u)),
                                 (''total'', num (snd item)),
                                 (''completed'', num completedTickets),
                                 (''pending'', num pendingTickets)]))))))"

definition getTechnicianPerformance :: "db \<Rightarrow> Response io" where
  "getTechnicianPerformance d =
     try_catch
       (await (prisma_ticket_groupBy_userId d) (\<lambda>monthlySummaryRaw.
        let monthlySummary = filter (\<lambda>item. fst item \<noteq> None) monthlySummaryRaw
        in await (promise_all (map (technician_item d) monthlySummary)) (\<lambda>result.
           return (json_response 200 (Arr (map the (filter (\<lambda>r. r \<noteq> None) result)))))))
       (\<lambda>error. return (json_response 500
          (message (''Hubo un error al obtener el rendimiento de los t'' @ e_acute @ ''cnicos''))))"

definition company_item :: "db \<Rightarrow> nat \<times> nat \<Rightarrow> jsval io" where
  "company_item d item =
     await (prisma_person_findUnique d (fst item)) (\<lambda>client.
     await (prisma_ticket_count d
       (no_where\<lparr>where_clientId := Some (fst item), where_status := Some Closed\<rparr>)) (\<lambda>completedTickets.
     await (prisma_ticket_count d
       (no_where\<lparr>where_clientId := Some (fst item), where_status := Some Open\<rparr>)) (\<lambda>pendingTickets.
     return (Obj [(''name'', Str (case client of
                                   Some c \<Rightarrow> firstName c @ '' '' @ lastName c
                                 | None \<Rightarrow> ''Unknown'')),
                  (''completed'', num completedTickets),
                  (''pending'', num pendingTickets)]))))"

definition getCompanySummary :: "db \<Rightarrow> Response io" where
  "getCompanySummary d =
     try_catch
       (await (prisma_ticket_groupBy_clientId d) (\<lambda>ticketsByCompany.
        await (promise_all (map (company_item d) ticketsByCompany)) (\<lambda>result.
        return (json_response 200 (Arr result)))))
       (\<lambda>error. return (json_response 500
          (message ''Hubo un error al obtener el resumen por empresa'')))"

section \<open>The router\<close>

text \<open>
  \<open>session\<close> is what \<^verbatim>\<open>getServerSession\<close> resolved to (\<open>None\<close> is \<^verbatim>\<open>null\<close>) and
  \<open>route\<close> is \<^verbatim>\<open>searchParams.get("route")\<close> (\<open>None\<close> when the URL has no such
  parameter).
\<close>

definition GET ::
  "(Type \<Rightarrow> MetaEntry option) \<Rightarrow> 'session option \<Rightarrow> string option \<Rightarrow> db \<Rightarrow> Response io" where
  "GET ticketMetadata session route d =
     (case session of
        None \<Rightarrow> return (json_response 401 (message ''Unauthorized''))
      | Some _ \<Rightarrow>
          if route = Some ''summary'' then getSummary d
          else if route = Some ''resolution-rate'' then getResolutionRate d
          else if route = Some ''monthly-summary'' then getMonthlySummary d
          else if route = Some ''by-category'' then getByCategory ticketMetadata d
          else if route = Some ''technician-performance'' then getTechnicianPerformance d
          else if route = Some ''company-summary'' then getCompanySummary d
          else if route = Some ''recent-tickets'' then getRecentTickets d
          else return (json_response 400 (message ''Invalid route'')))"

text \<open>The selectors that the \<^verbatim>\<open>switch\<close> of the router names.\<close>

definition recognized_routes :: "string list" where
  "recognized_routes =
     [''summary'', ''resolution-rate'', ''monthly-summary'', ''by-category'',
      ''technician-performance'', ''company-summary'', ''recent-tickets'']"

section \<open>Notions used in the statements\<close>

text \<open>\<open>newest_first a b\<close>: ticket \<open>a\<close> was created no earlier than ticket \<open>b\<close>.\<close>

definition newest_first :: "Ticket \<Rightarrow> Ticket \<Rightarrow> bool" where
  "newest_first a b \<longleftrightarrow> date_key (createdAt b) \<le> date_key (createdAt a)"

subsection \<open>Calendar months\<close>

text \<open>
  The calendar month of a timestamp, its \<open>YYYY-MM\<close> label, and the timestamps whose
  ISO string starts with that label: those with a year from 0000 to 9999 (outside this
  range \<^verbatim>\<open>toISOString\<close> writes a sign and six digits). The month is a calendar month,
  1 to 12.
\<close>

definition month_label :: "int \<times> nat \<Rightarrow> string" where
  "month_label ym = pad 4 (nat (fst ym)) @ ''-'' @ pad 2 (snd ym)"

definition calendar_month :: "Date \<Rightarrow> int \<times> nat" where
  "calendar_month d = (year d, month d)"

definition ordinary_date :: "Date \<Rightarrow> bool" where
  "ordinary_date d \<longleftrightarrow> 0 \<le> year d \<and> year d \<le> 9999 \<and> 1 \<le> month d \<and> month d \<le> 12"

text \<open>
  For the reduction of the monthly summary: the tickets counted under a key by a list of
  grouped rows, an accumulator whose entries carry their own key, and the count an
  accumulator holds under a key.
\<close>

definition bucket_total :: "string \<Rightarrow> (Date \<times> nat) list \<Rightarrow> nat" where
  "bucket_total K rows = sum_list (map snd (filter (\<lambda>r. take 7 (toISOString (fst r)) = K) rows))"

definition keyed :: "(string \<times> string \<times> nat) list \<Rightarrow> bool" where
  "keyed acc \<longleftrightarrow> distinct (map fst acc) \<and> list_all (\<lambda>x. fst (snd x) = fst x) acc"

definition bucket_base :: "(string \<times> string \<times> nat) list \<Rightarrow> string \<Rightarrow> nat" where
  "bucket_base acc K = (case map_of acc K of None \<Rightarrow> 0 | Some e \<Rightarrow> snd e)"

section \<open>The seven reports as a family\<close>

text \<open>
  The reports and the message each of them answers with from its \<^verbatim>\<open>catch\<close> block.
\<close>

datatype report =
    RecentTickets | Summary | ResolutionRate | MonthlySummary | ByCategory
  | TechnicianPerformance | CompanySummary

fun aggregation :: "(Type \<Rightarrow> MetaEntry option) \<Rightarrow> report \<Rightarrow> db \<Rightarrow> Response io" where
  "aggregation ticketMetadata RecentTickets = getRecentTickets"
| "aggregation ticketMetadata Summary = getSummary"
| "aggregation ticketMetadata ResolutionRate = getResolutionRate"
| "aggregation ticketMetadata MonthlySummary = getMonthlySummary"
| "aggregation ticketMetadata ByCategory = getByCategory ticketMetadata"
| "aggregation ticketMetadata TechnicianPerformance = getTechnicianPerformance"
| "aggregation ticketMetadata CompanySummary = getCompanySummary"

fun error_message :: "report \<Rightarrow> string" where
  "error_message RecentTickets = ''Hubo un error al obtener los tickets recientes''"
| "error_message Summary = ''Hubo un error al obtener el resumen de tickets''"
| "error_message ResolutionRate =
     ''Hubo un error al obtener la tasa de resoluci'' @ o_acute @ ''n''"
| "error_message MonthlySummary = ''Hubo un error al obtener el resumen mensual de tickets''"
| "error_message ByCategory =
     ''Hubo un error al obtener el desglose por categor'' @ i_acute @ ''a''"
| "error_message TechnicianPerformance =
     ''Hubo un error al obtener el rendimiento de los t'' @ e_acute @ ''cnicos''"
| "error_message CompanySummary = ''Hubo un error al obtener el resumen por empresa''"

text \<open>
  A computation rejects on failure when a failed query among those it sent leaves it
  rejected.
\<close>

definition rejects_on_failure :: "db \<Rightarrow> 'a io \<Rightarrow> bool" where
  "rejects_on_failure d m \<longleftrightarrow> ((\<exists>q\<in>set (fst m). failing d q) \<longrightarrow> (\<exists>e. snd m = Inl e))"

section \<open>A sample store\<close>

definition mk_date :: "int \<Rightarrow> nat \<Rightarrow> nat \<Rightarrow> Date" where
  "mk_date y m dd =
     \<lparr>year = y, month = m, day = dd, hours = 0, minutes = 0, seconds = 0, milliseconds = 0\<rparr>"

definition mk_ticket ::
  "string \<Rightarrow> Status \<Rightarrow> Type \<Rightarrow> Date \<Rightarrow> nat option \<Rightarrow> nat \<Rightarrow> Ticket" where
  "mk_ticket i s ty c u cl =
     \<lparr>ticket_id = i, title = ''t'', description = ''d'', status = s, type = ty,
      priority = ''High'', createdAt = c, updatedAt = c, userId = u, clientId = cl\<rparr>"

definition mk_person :: "nat \<Rightarrow> string \<Rightarrow> string \<Rightarrow> Person" where
  "mk_person i f l =
     \<lparr>person_id = i, firstName = f, lastName = l, email = ''e'', avatar = None, phone = ''p''\<rparr>"

text \<open>
  Six tickets. Technician 2 and client 12 have no Person row; two tickets have no
  technician; one ticket is neither Open nor Closed.
\<close>

definition demo_db :: db where
  "demo_db =
     \<lparr>tickets =
        [mk_ticket ''a'' Open ''Hardware'' (mk_date 2024 1 5) (Some 1) 10,
         mk_ticket ''b'' Closed ''Hardware'' (mk_date 2024 1 20) (Some 1) 10,
         mk_ticket ''c'' Closed ''Software'' (mk_date 2024 2 1) None 11,
         mk_ticket ''d'' (OtherStatus ''InProgress'') ''Software'' (mk_date 2024 2 10) (Some 2) 12,
         mk_ticket ''e'' Open ''Network'' (mk_date 2024 3 1) (Some 1) 10,
         mk_ticket ''f'' Closed ''Network'' (mk_date 2024 3 2) None 11],
      persons =
        [mk_person 1 ''Ana'' ''Diaz'', mk_person 10 ''Luis'' ''Rojas'', mk_person 11 ''Eva'' ''Soto''],
      failing = (\<lambda>q. False)\<rparr>"

definition demo_meta :: "Type \<Rightarrow> MetaEntry option" where
  "demo_meta k =
     (if k = ''Hardware'' then
        Some \<lparr>meta_text = Str ''Equipo'', meta_color = Str ''red'', meta_icon = Str ''cpu''\<rparr>
      else if k = ''Software'' then
        Some \<lparr>meta_text = Str ''Programa'', meta_color = Str ''blue'', meta_icon = Str ''code''\<rparr>
      else if k = ''Network'' then
        Some \<lparr>meta_text = Str ''Red'', meta_color = Str ''green'', meta_icon = Str ''wifi''\<rparr>
      else None)"

text \<open>A store without tickets, and a store with one Hardware ticket.\<close>

definition empty_db :: db where
  "empty_db = \<lparr>tickets = [], persons = [], failing = (\<lambda>q. False)\<rparr>"

definition single_db :: db where
  "single_db =
     \<lparr>tickets = [mk_ticket ''a'' Open ''Hardware'' (mk_date 2024 1 5) None 10],
      persons = [],
      failing = (\<lambda>q. False)\<rparr>"

text \<open>The sample store with the lookup of person 10 failing.\<close>

definition flaky_db :: db where
  "flaky_db = demo_db\<lparr>failing := (\<lambda>q. q = Person_findUnique 10)\<rparr>"

text \<open>The sample store with one more ticket, of a type that \<open>demo_meta\<close> does not list.\<close>

definition printer_ticket :: Ticket where
  "printer_ticket = mk_ticket ''p'' Open ''Printer'' (mk_date 2024 3 5) None 10"

definition printer_db :: db where
  "printer_db = demo_db\<lparr>tickets := tickets demo_db @ [printer_ticket]\<rparr>"

text \<open>
  A store with one ticket whose type is named after a member of \<^verbatim>\<open>Object.prototype\<close> and
  has no entry in \<open>demo_meta\<close>, and a store of three tickets of which one is Closed.
\<close>

definition constructor_ticket :: Ticket where
  "constructor_ticket = mk_ticket ''k'' Open ''constructor'' (mk_date 2024 3 5) None 10"

definition constructor_db :: db where
  "constructor_db = \<lparr>tickets = [constructor_ticket], persons = [], failing = (\<lambda>q. False)\<rparr>"

definition third_db :: db where
  "third_db =
     \<lparr>tickets =
        [mk_ticket ''a'' Closed ''Hardware'' (mk_date 2024 1 5) None 10,
         mk_ticket ''b'' Open ''Hardware'' (mk_date 2024 1 20) None 10,
         mk_ticket ''c'' Open ''Hardware'' (mk_date 2024 2 1) None 10],
      persons = [],
      failing = (\<lambda>q. False)\<rparr>"

text \<open>
  The example of the specification (tickets of 5 and 20 January and 1 February 2024), and
  two tickets of January and February of the year 10000.
\<close>

definition spec_example_db :: db where
  "spec_example_db =
     \<lparr>tickets =
        [mk_ticket ''a'' Open ''Hardware'' (mk_date 2024 1 5) None 10,
         mk_ticket ''b'' Open ''Hardware'' (mk_date 2024 1 20) None 10,
         mk_ticket ''c'' Open ''Hardware'' (mk_date 2024 2 1) None 10],
      persons = [],
      failing = (\<lambda>q. False)\<rparr>"


section \<open>Properties\<close>

subsection \<open>JSON texts\<close>

lemma JSON_stringify_Null [simp]: "JSON_stringify Null = JNull"
  by (simp add: JSON_stringify_def)

lemma JSON_stringify_Num [simp]:
  "JSON_stringify (Num n) = (case n of Finite r \<Rightarrow> JNumber r | _ \<Rightarrow> JNull)"
  by (simp add: JSON_stringify_def)

lemma JSON_stringify_Str [simp]: "JSON_stringify (Str s) = JString s"
  by (simp add: JSON_stringify_def)

lemma JSON_stringify_DateV [simp]: "JSON_stringify (DateV d) = JString (toISOString d)"
  by (simp add: JSON_stringify_def)

lemma JSON_stringify_Arr [simp]: "JSON_stringify (Arr vs) = JArray (map JSON_stringify vs)"
  by (simp add: JSON_stringify_def o_def)

lemma JSON_stringify_Obj [simp]:
  "JSON_stringify (Obj kvs) =
     JObject (List.map_filter (\<lambda>kv. map_option (Pair (fst kv)) (json_of (snd kv))) kvs)"
proof -
  have "List.map_filter (\<lambda>kj. map_option (Pair (fst kj)) (snd kj))
          (map (map_prod id json_of) kvs) =
        List.map_filter (\<lambda>kv. map_option (Pair (fst kv)) (json_of (snd kv))) kvs"
    by (induction kvs) (simp_all add: map_filter_simps split: option.splits)
  then show ?thesis
    by (simp add: JSON_stringify_def)
qed

lemma json_of_num [simp]: "json_of (num n) = Some (JNumber (of_nat n))"
  by (simp add: num_def)

lemma json_of_Obj_Arr: "json_of (Obj kvs) \<noteq> None" "json_of (Arr vs) \<noteq> None"
  by simp_all

subsection \<open>Where-clauses and the outcome of a computation\<close>

lemma length_filter_disjoint:
  "(\<And>x. x \<in> set xs \<Longrightarrow> \<not> (P x \<and> Q x)) \<Longrightarrow>
   length (filter P xs) + length (filter Q xs) \<le> length xs"
  by (induction xs) auto

lemma matches_no_where: "filter (matches no_where) ts = ts"
  by (simp add: matches_def no_where_def)

lemma matches_status:
  "matches (no_where\<lparr>where_status := Some s\<rparr>) = (\<lambda>t. status t = s)"
  by (simp add: matches_def no_where_def fun_eq_iff)

lemma matches_user_status:
  "matches (no_where\<lparr>where_userId := Some u, where_status := Some s\<rparr>) =
     (\<lambda>t. userId t = Some u \<and> status t = s)"
  by (auto simp: matches_def no_where_def fun_eq_iff)

lemma matches_client_status:
  "matches (no_where\<lparr>where_clientId := Some c, where_status := Some s\<rparr>) =
     (\<lambda>t. clientId t = c \<and> status t = s)"
  by (auto simp: matches_def no_where_def fun_eq_iff)

lemma run_query_up [simp]: "store_up d \<Longrightarrow> run_query d q r = ([q], Inr r)"
  by (simp add: run_query_def store_up_def)

lemma await_Inr [simp]: "snd m = Inr x \<Longrightarrow> await m k = (fst m @ fst (k x), snd (k x))"
  by (simp add: await_def)

lemma await_Inl [simp]: "snd m = Inl e \<Longrightarrow> await m k = (fst m, Inl e)"
  by (simp add: await_def)

lemma try_catch_Inr [simp]: "snd m = Inr x \<Longrightarrow> try_catch m h = m"
  by (simp add: try_catch_def)

lemma try_catch_Inl [simp]: "snd m = Inl e \<Longrightarrow> try_catch m h = (fst m @ fst (h e), snd (h e))"
  by (simp add: try_catch_def)

subsection \<open>Summary\<close>

text \<open>
  C9. When the store answers, the summary is
  \<open>{ totalTickets, pendingTickets, completedTickets }\<close> with the number of all tickets,
  of the tickets with status Open and of those with status Closed, and
  \<open>pendingTickets + completedTickets \<le> totalTickets\<close> (for every ticket list, empty or
  not).
\<close>

theorem getSummary_pending_completed_le_total:
  assumes "store_up d"
  shows "\<exists>T P C.
    snd (getSummary d) = Inr
      \<lparr>resp_status = 200,
       resp_headers = [(''Content-Type'', ''application/json'')],
       resp_body = JObject [(''totalTickets'', JNumber (of_nat T)),
                            (''pendingTickets'', JNumber (of_nat P)),
                            (''completedTickets'', JNumber (of_nat C))]\<rparr> \<and>
    T = length (tickets d) \<and>
    P = length (filter (\<lambda>t. status t = Open) (tickets d)) \<and>
    C = length (filter (\<lambda>t. status t = Closed) (tickets d)) \<and>
    P + C \<le> T"
proof -
  have le: "length (filter (\<lambda>t. status t = Open) (tickets d)) +
            length (filter (\<lambda>t. status t = Closed) (tickets d)) \<le> length (tickets d)"
    by (rule length_filter_disjoint) auto
  have "snd (getSummary d) = Inr (json_response 200
          (Obj [(''totalTickets'', num (length (tickets d))),
                (''pendingTickets'', num (length (filter (\<lambda>t. status t = Open) (tickets d)))),
                (''completedTickets'', num (length (filter (\<lambda>t. status t = Closed) (tickets d))))]))"
    using assms
    by (simp add: getSummary_def prisma_ticket_count_def return_def matches_no_where
        matches_status)
  then show ?thesis
    using le by (simp add: json_response_def num_def)
qed

lemma store_up_demo: "store_up demo_db"
  by (simp add: store_up_def demo_db_def)

theorem getSummary_witness:
  "store_up demo_db \<and> (\<exists>T P C.
    snd (getSummary demo_db) = Inr
      \<lparr>resp_status = 200,
       resp_headers = [(''Content-Type'', ''application/json'')],
       resp_body = JObject [(''totalTickets'', JNumber (of_nat T)),
                            (''pendingTickets'', JNumber (of_nat P)),
                            (''completedTickets'', JNumber (of_nat C))]\<rparr> \<and>
    T = length (tickets demo_db) \<and>
    P = length (filter (\<lambda>t. status t = Open) (tickets demo_db)) \<and>
    C = length (filter (\<lambda>t. status t = Closed) (tickets demo_db)) \<and>
    P + C \<le> T)"
  using getSummary_pending_completed_le_total [OF store_up_demo] store_up_demo by simp

subsection \<open>The router\<close>

text \<open>
  C7. A request without a session is answered 401 \<open>{ message: "Unauthorized" }\<close> and a
  request with a session whose route selector is none of the seven names is answered 400
  \<open>{ message: "Invalid route" }\<close>; in both cases no query is sent to the store. A
  request that sent a query had a session and one of the seven selectors.
\<close>

theorem GET_guards:
  "(session = None \<longrightarrow>
      GET ticketMetadata session route d =
        ([], Inr \<lparr>resp_status = 401,
                  resp_headers = [(''Content-Type'', ''application/json'')],
                  resp_body = JObject [(''message'', JString ''Unauthorized'')]\<rparr>)) \<and>
   (session \<noteq> None \<and> route \<notin> Some ` set recognized_routes \<longrightarrow>
      GET ticketMetadata session route d =
        ([], Inr \<lparr>resp_status = 400,
                  resp_headers = [(''Content-Type'', ''application/json'')],
                  resp_body = JObject [(''message'', JString ''Invalid route'')]\<rparr>)) \<and>
   (fst (GET ticketMetadata session route d) \<noteq> [] \<longrightarrow>
      session \<noteq> None \<and> route \<in> Some ` set recognized_routes)"
  by (cases session)
     (auto simp: GET_def return_def json_response_def message_def recognized_routes_def)

theorem GET_guards_witness:
  "GET demo_meta (None :: unit option) (Some ''summary'') demo_db =
        ([], Inr \<lparr>resp_status = 401,
                  resp_headers = [(''Content-Type'', ''application/json'')],
                  resp_body = JObject [(''message'', JString ''Unauthorized'')]\<rparr>) \<and>
   GET demo_meta (Some ()) (Some ''summaries'') demo_db =
        ([], Inr \<lparr>resp_status = 400,
                  resp_headers = [(''Content-Type'', ''application/json'')],
                  resp_body = JObject [(''message'', JString ''Invalid route'')]\<rparr>) \<and>
   fst (GET demo_meta (Some ()) (Some ''summary'') demo_db) \<noteq> [] \<and>
   Some ''summary'' \<in> Some ` set recognized_routes"
proof -
  have issued: "fst (GET demo_meta (Some ()) (Some ''summary'') demo_db) \<noteq> []"
    by code_simp
  have unknown: "Some ''summaries'' \<notin> Some ` set recognized_routes"
    by (simp add: recognized_routes_def)
  show ?thesis
    using issued unknown
      GET_guards [where session = "None :: unit option" and ticketMetadata = demo_meta
                    and route = "Some ''summary''" and d = demo_db]
      GET_guards [where session = "Some ()" and ticketMetadata = demo_meta
                    and route = "Some ''summaries''" and d = demo_db]
      GET_guards [where session = "Some ()" and ticketMetadata = demo_meta
                    and route = "Some ''summary''" and d = demo_db]
    by simp
qed

subsection \<open>Resolution rate\<close>

text \<open>
  C1. On a store without tickets the resolution rate is \<open>0 / 0\<close>, which is
  \<^verbatim>\<open>NaN\<close>: the report answers 200 and \<^verbatim>\<open>JSON.stringify\<close> writes the rate as
  \<^verbatim>\<open>null\<close>. No convention for the empty store is applied.
\<close>

theorem getResolutionRate_empty_store:
  "getResolutionRate empty_db =
     ([Ticket_count no_where, Ticket_count (no_where\<lparr>where_status := Some Closed\<rparr>)],
      Inr \<lparr>resp_status = 200,
           resp_headers = [(''Content-Type'', ''application/json'')],
           resp_body = JObject [(''resolutionRate'', JNull)]\<rparr>)"
  by (simp add: getResolutionRate_def empty_db_def prisma_ticket_count_def run_query_def
      await_def try_catch_def return_def json_response_def)

text \<open>
  When the store answers, the rate is the quotient of the two counts, rounded to a double,
  times 100, rounded again: one Closed ticket of three gives 33.33333333333333, the double
  \<open>2345624805922133 / 2 ^ 46\<close>, and not the double nearest to \<open>100 / 3\<close>; seven of
  twenty-five give 28.000000000000004.
\<close>

lemma getResolutionRate_up:
  assumes "store_up d"
  shows "snd (getResolutionRate d) = Inr (json_response 200
      (Obj [(''resolutionRate'',
         Num (js_times
                (js_divide
                   (Finite (of_nat (length (filter (\<lambda>t. status t = Closed) (tickets d)))))
                   (Finite (of_nat (length (tickets d)))))
                (Finite 100)))]))"
  using assms
  by (simp add: getResolutionRate_def prisma_ticket_count_def return_def matches_no_where
      matches_status del: js_divide.simps js_times.simps)

lemma one_third_times_100:
  "js_times (js_divide (Finite 1) (Finite 3)) (Finite 100) =
     Finite (2345624805922133 / 2 ^ 46)"
  by code_simp

lemma seven_of_25_times_100:
  "js_times (js_divide (Finite 7) (Finite 25)) (Finite 100) = Finite (28 + 1 / 2 ^ 48)"
  by code_simp

lemma getResolutionRate_one_of_three:
  "snd (getResolutionRate third_db) = Inr
     \<lparr>resp_status = 200,
      resp_headers = [(''Content-Type'', ''application/json'')],
      resp_body = JObject [(''resolutionRate'', JNumber (2345624805922133 / 2 ^ 46))]\<rparr>"
proof -
  have up: "store_up third_db"
    by (simp add: store_up_def third_db_def)
  have counts: "length (filter (\<lambda>t. status t = Closed) (tickets third_db)) = 1"
    "length (tickets third_db) = 3"
    by (simp_all add: third_db_def mk_ticket_def)
  show ?thesis
    unfolding getResolutionRate_up [OF up] counts
    using one_third_times_100
    by (simp add: json_response_def map_filter_simps del: js_divide.simps js_times.simps)
qed

subsection \<open>Tickets by category\<close>

text \<open>
  C2, as stated, fails. The entry of a category carries its count as \<open>_count: { _all: n }\<close>, the object the
  store returned, and has no key \<open>count\<close>: on a store with one Hardware ticket the
  response is not the one with \<open>count: 1\<close>.
\<close>

theorem getByCategory_single_counterexample:
  "snd (getByCategory demo_meta single_db) = Inr
     \<lparr>resp_status = 200,
      resp_headers = [(''Content-Type'', ''application/json'')],
      resp_body = JArray [JObject [(''type'', JString ''Equipo''),
                                   (''_count'', JObject [(''_all'', JNumber 1)]),
                                   (''color'', JString ''red''),
                                   (''icon'', JString ''cpu'')]]\<rparr> \<and>
   snd (getByCategory demo_meta single_db) \<noteq> Inr
     \<lparr>resp_status = 200,
      resp_headers = [(''Content-Type'', ''application/json'')],
      resp_body = JArray [JObject [(''type'', JString ''Equipo''),
                                   (''count'', JNumber 1),
                                   (''color'', JString ''red''),
                                   (''icon'', JString ''cpu'')]]\<rparr>"
  by (simp add: getByCategory_def single_db_def prisma_ticket_groupBy_type_def run_query_def
      group_count_def mk_ticket_def category_item_def type_property_def read_field_def
      demo_meta_def await_def try_catch_def return_def json_response_def map_filter_simps)

subsection \<open>Failures of the store\<close>

lemma rof_return [simp]: "rejects_on_failure d (return x)"
  by (simp add: rejects_on_failure_def return_def)

lemma rof_throw [simp]: "rejects_on_failure d (throw e)"
  by (simp add: rejects_on_failure_def throw_def)

lemma rof_run_query [simp]: "rejects_on_failure d (run_query d q r)"
  by (simp add: rejects_on_failure_def run_query_def)

lemma rof_await:
  assumes "rejects_on_failure d m" and "\<And>x. snd m = Inr x \<Longrightarrow> rejects_on_failure d (k x)"
  shows "rejects_on_failure d (await m k)"
proof (cases "snd m")
  case (Inl e)
  then show ?thesis by (simp add: rejects_on_failure_def)
next
  case (Inr x)
  with assms(1) have clean: "\<forall>q\<in>set (fst m). \<not> failing d q"
    by (auto simp: rejects_on_failure_def)
  from assms(2) [OF Inr] clean Inr show ?thesis
    by (auto simp: rejects_on_failure_def)
qed

lemma rof_promise_all:
  "(\<And>m. m \<in> set ms \<Longrightarrow> rejects_on_failure d m) \<Longrightarrow> rejects_on_failure d (promise_all ms)"
proof (induction ms)
  case Nil
  then show ?case by (simp add: rejects_on_failure_def)
next
  case (Cons m ms)
  have hd: "rejects_on_failure d m" by (simp add: Cons.prems)
  have tl: "rejects_on_failure d (promise_all ms)" by (simp add: Cons.IH Cons.prems)
  from hd tl show ?case
    by (auto simp: rejects_on_failure_def split: sum.splits)
qed

lemma rof_array_map:
  "(\<And>x. x \<in> set xs \<Longrightarrow> rejects_on_failure d (f x)) \<Longrightarrow> rejects_on_failure d (array_map f xs)"
proof (induction xs)
  case Nil
  then show ?case by simp
next
  case (Cons x xs)
  show ?case
    unfolding array_map.simps
    by (intro rof_await rof_return) (simp_all add: Cons)
qed

lemma try_catch_return:
  "try_catch m (\<lambda>e. return r) = (fst m, case snd m of Inl e \<Rightarrow> Inr r | Inr x \<Rightarrow> Inr x)"
  by (cases m) (auto simp: try_catch_def return_def split: sum.splits)

lemma caught:
  assumes "rejects_on_failure d m"
  shows "\<exists>r. snd (try_catch m (\<lambda>e. return r5)) = Inr r \<and>
             ((\<exists>q\<in>set (fst (try_catch m (\<lambda>e. return r5))). failing d q) \<longrightarrow> r = r5)"
  using assms by (auto simp: try_catch_return rejects_on_failure_def split: sum.splits)

lemma rof_count [simp]: "rejects_on_failure d (prisma_ticket_count d w)"
  by (simp add: prisma_ticket_count_def)

lemma rof_findUnique [simp]: "rejects_on_failure d (prisma_person_findUnique d i)"
  by (simp add: prisma_person_findUnique_def)

lemma rof_technician_item: "rejects_on_failure d (technician_item d item)"
  unfolding technician_item_def
  by (auto intro!: rof_await split: option.splits)

lemma rof_company_item: "rejects_on_failure d (company_item d item)"
  unfolding company_item_def
  by (auto intro!: rof_await)

lemma rof_read_field [simp]: "rejects_on_failure d (read_field p field)"
  by (simp add: read_field_def split: property.splits)

lemma rof_category_item: "rejects_on_failure d (category_item ticketMetadata item)"
  unfolding category_item_def
  by (intro rof_await) simp_all

lemma getRecentTickets_caught:
  "\<exists>r. snd (getRecentTickets d) = Inr r \<and>
       ((\<exists>q\<in>set (fst (getRecentTickets d)). failing d q) \<longrightarrow>
        r = json_response 500 (message ''Hubo un error al obtener los tickets recientes''))"
  unfolding getRecentTickets_def prisma_ticket_findMany_recent_def
  by (intro caught rof_await) simp_all

lemma getSummary_caught:
  "\<exists>r. snd (getSummary d) = Inr r \<and>
       ((\<exists>q\<in>set (fst (getSummary d)). failing d q) \<longrightarrow>
        r = json_response 500 (message ''Hubo un error al obtener el resumen de tickets''))"
  unfolding getSummary_def
  by (intro caught rof_await) simp_all

lemma getResolutionRate_caught:
  "\<exists>r. snd (getResolutionRate d) = Inr r \<and>
       ((\<exists>q\<in>set (fst (getResolutionRate d)). failing d q) \<longrightarrow>
        r = json_response 500
              (message (''Hubo un error al obtener la tasa de resoluci'' @ o_acute @ ''n'')))"
  unfolding getResolutionRate_def Let_def
  by (intro caught rof_await) simp_all

lemma getMonthlySummary_caught:
  "\<exists>r. snd (getMonthlySummary d) = Inr r \<and>
       ((\<exists>q\<in>set (fst (getMonthlySummary d)). failing d q) \<longrightarrow>
        r = json_response 500
              (message ''Hubo un error al obtener el resumen mensual de tickets''))"
  unfolding getMonthlySummary_def Let_def prisma_ticket_groupBy_createdAt_def
  by (intro caught rof_await) simp_all

lemma getByCategory_caught:
  "\<exists>r. snd (getByCategory ticketMetadata d) = Inr r \<and>
       ((\<exists>q\<in>set (fst (getByCategory ticketMetadata d)). failing d q) \<longrightarrow>
        r = json_response 500
              (message (''Hubo un error al obtener el desglose por categor'' @ i_acute @ ''a'')))"
  unfolding getByCategory_def prisma_ticket_groupBy_type_def
  by (intro caught rof_await rof_array_map rof_category_item) simp_all

lemma getTechnicianPerformance_caught:
  "\<exists>r. snd (getTechnicianPerformance d) = Inr r \<and>
       ((\<exists>q\<in>set (fst (getTechnicianPerformance d)). failing d q) \<longrightarrow>
        r = json_response 500
              (message (''Hubo un error al obtener el rendimiento de los t'' @ e_acute @ ''cnicos'')))"
  unfolding getTechnicianPerformance_def prisma_ticket_groupBy_userId_def Let_def
  by (intro caught rof_await rof_promise_all) (auto simp: rof_technician_item)

lemma getCompanySummary_caught:
  "\<exists>r. snd (getCompanySummary d) = Inr r \<and>
       ((\<exists>q\<in>set (fst (getCompanySummary d)). failing d q) \<longrightarrow>
        r = json_response 500 (message ''Hubo un error al obtener el resumen por empresa''))"
  unfolding getCompanySummary_def prisma_ticket_groupBy_clientId_def
  by (intro caught rof_await rof_promise_all) (auto simp: rof_company_item)

text \<open>
  C8. Every report returns a response, never an exception. When a query it sent to the
  store failed, the response is 500 with the body \<open>{ message }\<close> of that report and
  nothing else: no part of the result is in it.
\<close>

theorem aggregation_failure_is_500:
  "\<exists>r. snd (aggregation ticketMetadata rep d) = Inr r \<and>
       ((\<exists>q\<in>set (fst (aggregation ticketMetadata rep d)). failing d q) \<longrightarrow>
        r = json_response 500 (message (error_message rep)))"
proof (cases rep)
  case RecentTickets
  then show ?thesis using getRecentTickets_caught by simp
next
  case Summary
  then show ?thesis using getSummary_caught by simp
next
  case ResolutionRate
  then show ?thesis using getResolutionRate_caught by simp
next
  case MonthlySummary
  then show ?thesis using getMonthlySummary_caught by simp
next
  case ByCategory
  then show ?thesis using getByCategory_caught by simp
next
  case TechnicianPerformance
  then show ?thesis using getTechnicianPerformance_caught by simp
next
  case CompanySummary
  then show ?thesis using getCompanySummary_caught by simp
qed

theorem aggregation_failure_is_500_witness:
  "Person_findUnique 10 \<in> set (fst (aggregation demo_meta CompanySummary flaky_db)) \<and>
   failing flaky_db (Person_findUnique 10) \<and>
   snd (aggregation demo_meta CompanySummary flaky_db) =
     Inr (json_response 500 (message ''Hubo un error al obtener el resumen por empresa''))"
proof -
  have issued: "Person_findUnique 10 \<in> set (fst (aggregation demo_meta CompanySummary flaky_db))"
    by code_simp
  have fails: "failing flaky_db (Person_findUnique 10)"
    by (simp add: flaky_db_def)
  from issued fails
  have "\<exists>q\<in>set (fst (aggregation demo_meta CompanySummary flaky_db)). failing flaky_db q"
    by blast
  with aggregation_failure_is_500 [of demo_meta CompanySummary flaky_db] issued fails
  show ?thesis by auto
qed

subsection \<open>A ticket type without a catalog entry\<close>

lemma array_map_throws:
  assumes "x \<in> set xs" and "snd (f x) = Inl e"
  shows "\<exists>e'. snd (array_map f xs) = Inl e'"
  using assms
proof (induction xs)
  case Nil
  then show ?case by simp
next
  case (Cons y ys)
  show ?case
  proof (cases "snd (f y)")
    case (Inl a)
    then show ?thesis by simp
  next
    case (Inr b)
    with Cons.prems have "x \<in> set ys" by auto
    from Cons.IH [OF this Cons.prems(2)] obtain e' where "snd (array_map f ys) = Inl e'" ..
    with Inr show ?thesis by simp
  qed
qed

lemma group_count_keys: "fst ` set (group_count col rows) = col ` set rows"
  by (force simp: group_count_def)

text \<open>
  C10, as stated, fails. A ticket whose type is \<open>constructor\<close> has no entry in
  \<open>demo_meta\<close>, yet \<^verbatim>\<open>ticketMetadata.type["constructor"]\<close> is the inherited
  \<^verbatim>\<open>Object\<close> function and not \<^verbatim>\<open>undefined\<close>: nothing throws, the three properties
  read as \<^verbatim>\<open>undefined\<close>, and the report answers 200 with the entry
  \<open>{ _count: { _all: 1 } }\<close>.
\<close>

theorem getByCategory_constructor_counterexample:
  "constructor_ticket \<in> set (tickets constructor_db) \<and>
   demo_meta (type constructor_ticket) = None \<and>
   snd (getByCategory demo_meta constructor_db) = Inr
     \<lparr>resp_status = 200,
      resp_headers = [(''Content-Type'', ''application/json'')],
      resp_body = JArray [JObject [(''_count'', JObject [(''_all'', JNumber 1)])]]\<rparr>"
  by (simp add: getByCategory_def constructor_db_def constructor_ticket_def
      prisma_ticket_groupBy_type_def run_query_def group_count_def mk_ticket_def
      category_item_def type_property_def read_field_def object_prototype_members_def
      demo_meta_def await_def try_catch_def return_def json_response_def map_filter_simps)

text \<open>
  C10, as the code has it. When some ticket has a type that the metadata catalog does not
  list and that is not the name of a member of \<^verbatim>\<open>Object.prototype\<close> (so that the lookup
  is \<^verbatim>\<open>undefined\<close>), the by-category report answers 500 with
  \<open>{ message: "Hubo un error al obtener el desglose por categoria" }\<close> (with the
  accented i), whether the store answered or not: the very response it gives when the
  query to the store fails.
\<close>

theorem getByCategory_uncatalogued_type:
  assumes "t \<in> set (tickets d)" and "ticketMetadata (type t) = None"
    and "type t \<notin> set object_prototype_members"
  shows "snd (getByCategory ticketMetadata d) =
           Inr \<lparr>resp_status = 500,
                resp_headers = [(''Content-Type'', ''application/json'')],
                resp_body = JObject [(''message'',
                  JString (''Hubo un error al obtener el desglose por categor'' @ i_acute @ ''a''))]\<rparr> \<and>
         snd (getByCategory ticketMetadata d) =
           snd (getByCategory ticketMetadata (d\<lparr>failing := (\<lambda>q. True)\<rparr>))"
proof -
  let ?r = "json_response 500
     (message (''Hubo un error al obtener el desglose por categor'' @ i_acute @ ''a''))"
  have down: "snd (getByCategory ticketMetadata (d\<lparr>failing := (\<lambda>q. True)\<rparr>)) = Inr ?r"
    by (simp add: getByCategory_def prisma_ticket_groupBy_type_def run_query_def return_def)
  have here: "snd (getByCategory ticketMetadata d) = Inr ?r"
  proof (cases "failing d (Ticket_groupBy F_type)")
    case True
    then show ?thesis
      by (simp add: getByCategory_def prisma_ticket_groupBy_type_def run_query_def return_def)
  next
    case False
    from assms(1) have "type t \<in> fst ` set (group_count type (tickets d))"
      by (simp add: group_count_keys)
    then obtain item where item: "item \<in> set (group_count type (tickets d))" "fst item = type t"
      by auto
    with assms(2,3) have thrown: "snd (category_item ticketMetadata item) = Inl TypeError"
      by (simp add: category_item_def type_property_def read_field_def throw_def)
    from array_map_throws [where f = "category_item ticketMetadata", OF item(1) thrown]
    obtain e' where
      "snd (array_map (category_item ticketMetadata) (group_count type (tickets d))) = Inl e'" ..
    with False show ?thesis
      by (simp add: getByCategory_def prisma_ticket_groupBy_type_def run_query_def return_def)
  qed
  from here down show ?thesis
    by (simp add: json_response_def message_def)
qed

theorem getByCategory_uncatalogued_type_witness:
  "printer_ticket \<in> set (tickets printer_db) \<and>
   demo_meta (type printer_ticket) = None \<and>
   type printer_ticket \<notin> set object_prototype_members \<and>
   snd (getByCategory demo_meta printer_db) =
           Inr \<lparr>resp_status = 500,
                resp_headers = [(''Content-Type'', ''application/json'')],
                resp_body = JObject [(''message'',
                  JString (''Hubo un error al obtener el desglose por categor'' @ i_acute @ ''a''))]\<rparr>"
proof -
  have present: "printer_ticket \<in> set (tickets printer_db)"
    by (simp add: printer_db_def)
  have missing: "demo_meta (type printer_ticket) = None"
    by (simp add: demo_meta_def printer_ticket_def mk_ticket_def)
  have ordinary: "type printer_ticket \<notin> set object_prototype_members"
    by (simp add: object_prototype_members_def printer_ticket_def mk_ticket_def)
  from getByCategory_uncatalogued_type
         [where ticketMetadata = demo_meta and t = printer_ticket and d = printer_db,
          OF present missing ordinary]
       present missing ordinary
  show ?thesis by simp
qed

subsection \<open>Recent tickets\<close>

lemma sorted_desc_findMany:
  "sorted_wrt newest_first (rev (sort_key (\<lambda>t. date_key (createdAt t)) ts))"
proof -
  have "sorted (map (\<lambda>t. date_key (createdAt t)) (sort_key (\<lambda>t. date_key (createdAt t)) ts))"
    by (rule sorted_sort_key)
  then have "sorted_wrt (\<lambda>a b. date_key (createdAt a) \<le> date_key (createdAt b))
               (sort_key (\<lambda>t. date_key (createdAt t)) ts)"
    by (simp add: sorted_wrt_map)
  then show ?thesis
    by (simp add: sorted_wrt_rev newest_first_def)
qed

lemma sorted_wrt_hd:
  assumes "sorted_wrt P xs" and "\<And>x. P x x" and "x \<in> set xs"
  shows "P (hd xs) x"
  using assms by (cases xs) auto

text \<open>
  C6. On a store with more than five tickets that answers, the recent-tickets report
  returns exactly five tickets, newest first; they are five of the store's tickets, every
  ticket left out is no newer than any of them (no ticket is filtered out on any other
  ground), and the first one is a most recently created ticket.
\<close>

theorem getRecentTickets_five_newest:
  assumes "store_up d" and "5 < length (tickets d)"
  shows "\<exists>ts rest.
    snd (getRecentTickets d) = Inr (json_response 200 (Arr (map ticket_obj ts))) \<and>
    length ts = 5 \<and>
    mset (ts @ rest) = mset (tickets d) \<and>
    sorted_wrt newest_first ts \<and>
    (\<forall>a\<in>set ts. \<forall>b\<in>set rest. newest_first a b) \<and>
    (\<forall>t\<in>set (tickets d). newest_first (hd ts) t)"
proof -
  let ?s = "rev (sort_key (\<lambda>t. date_key (createdAt t)) (tickets d))"
  have resp: "snd (getRecentTickets d) = Inr (json_response 200 (Arr (map ticket_obj (take 5 ?s))))"
    using assms(1)
    by (simp add: getRecentTickets_def prisma_ticket_findMany_recent_def return_def)
  have len: "length (take 5 ?s) = 5"
    using assms(2) by simp
  have perm: "mset (take 5 ?s @ drop 5 ?s) = mset (tickets d)"
    by simp
  have sorted_all: "sorted_wrt newest_first (take 5 ?s @ drop 5 ?s)"
    using sorted_desc_findMany [of "tickets d"] by simp
  then have sorted_ts: "sorted_wrt newest_first (take 5 ?s)"
    and cross: "\<forall>a\<in>set (take 5 ?s). \<forall>b\<in>set (drop 5 ?s). newest_first a b"
    unfolding sorted_wrt_append by blast+
  have first: "\<forall>t\<in>set (tickets d). newest_first (hd (take 5 ?s)) t"
  proof
    fix t assume "t \<in> set (tickets d)"
    then have "t \<in> set ?s" by simp
    moreover have "hd (take 5 ?s) = hd ?s" by simp
    ultimately show "newest_first (hd (take 5 ?s)) t"
      using sorted_wrt_hd [OF sorted_desc_findMany [of "tickets d"], of t]
      by (simp add: newest_first_def)
  qed
  from resp len perm sorted_ts cross first show ?thesis by blast
qed

theorem getRecentTickets_five_newest_witness:
  "store_up demo_db \<and> 5 < length (tickets demo_db) \<and> (\<exists>ts rest.
    snd (getRecentTickets demo_db) = Inr (json_response 200 (Arr (map ticket_obj ts))) \<and>
    length ts = 5 \<and>
    mset (ts @ rest) = mset (tickets demo_db) \<and>
    sorted_wrt newest_first ts \<and>
    (\<forall>a\<in>set ts. \<forall>b\<in>set rest. newest_first a b) \<and>
    (\<forall>t\<in>set (tickets demo_db). newest_first (hd ts) t))"
proof -
  have more: "5 < length (tickets demo_db)"
    by (simp add: demo_db_def)
  from getRecentTickets_five_newest [OF store_up_demo more] store_up_demo more
  show ?thesis by simp
qed

subsection \<open>Grouped rows and fulfilled callbacks\<close>

lemma group_count_map:
  "group_count col rows =
     map (\<lambda>k. (k, length (filter (\<lambda>r. col r = k) rows))) (remdups (map col rows))"
  by (simp add: group_count_def)

lemma promise_all_fulfilled:
  "(\<And>x. x \<in> set xs \<Longrightarrow> snd (f x) = Inr (g x)) \<Longrightarrow>
   snd (promise_all (map f xs)) = Inr (map g xs)"
  by (induction xs) simp_all

lemma array_map_fulfilled:
  "(\<And>x. x \<in> set xs \<Longrightarrow> snd (f x) = Inr (g x)) \<Longrightarrow>
   snd (array_map f xs) = Inr (map g xs)"
  by (induction xs) (simp_all add: return_def)

lemma filter_Boolean:
  "map the (filter (\<lambda>r. r \<noteq> None) (map g xs)) = map (\<lambda>x. the (g x)) (filter (\<lambda>x. g x \<noteq> None) xs)"
  by (induction xs) simp_all

lemma somes_distinct:
  "distinct ks \<Longrightarrow> distinct (map the (filter (\<lambda>k. k \<noteq> None) ks))"
  by (induction ks) auto

lemma somes_set:
  "set (map the (filter (\<lambda>k. k \<noteq> None) ks)) = {u. Some u \<in> set ks}"
  by (induction ks) auto

lemma somes_map:
  "map f (filter (\<lambda>k. k \<noteq> None) ks) =
   map (\<lambda>u. f (Some u)) (map the (filter (\<lambda>k. k \<noteq> None) ks))"
  by (induction ks) auto

subsection \<open>Company summary\<close>

lemma company_item_up:
  assumes "store_up d"
  shows "snd (company_item d item) = Inr
     (Obj [(''name'', Str (case find (\<lambda>p. person_id p = fst item) (persons d) of
                            Some c \<Rightarrow> firstName c @ '' '' @ lastName c
                          | None \<Rightarrow> ''Unknown'')),
           (''completed'',
              num (length (filter (\<lambda>t. clientId t = fst item \<and> status t = Closed) (tickets d)))),
           (''pending'',
              num (length (filter (\<lambda>t. clientId t = fst item \<and> status t = Open) (tickets d))))])"
  using assms
  by (simp add: company_item_def prisma_person_findUnique_def prisma_ticket_count_def
      return_def matches_client_status)

text \<open>
  C5. When the store answers, the company summary has one group for each distinct
  \<open>clientId\<close> among the tickets. The group of a client is
  \<open>{ name, completed, pending }\<close>: the name is \<open>"<first> <last>"\<close> of the Person with
  that id, or \<open>"Unknown"\<close> when there is none (the group is kept), and \<open>completed\<close>
  and \<open>pending\<close> count the client's tickets with status Closed and Open.
\<close>

theorem getCompanySummary_groups:
  assumes "store_up d"
  shows "\<exists>cs. distinct cs \<and> set cs = clientId ` set (tickets d) \<and>
    snd (getCompanySummary d) = Inr (json_response 200 (Arr (map
      (\<lambda>c. Obj [(''name'', Str (case find (\<lambda>p. person_id p = c) (persons d) of
                                  Some p \<Rightarrow> firstName p @ '' '' @ lastName p
                                | None \<Rightarrow> ''Unknown'')),
                 (''completed'',
                    num (length (filter (\<lambda>t. clientId t = c \<and> status t = Closed) (tickets d)))),
                 (''pending'',
                    num (length (filter (\<lambda>t. clientId t = c \<and> status t = Open) (tickets d))))])
      cs)))"
proof -
  let ?cs = "remdups (map clientId (tickets d))"
  let ?entry = "\<lambda>c. Obj [(''name'', Str (case find (\<lambda>p. person_id p = c) (persons d) of
                                  Some p \<Rightarrow> firstName p @ '' '' @ lastName p
                                | None \<Rightarrow> ''Unknown'')),
                 (''completed'',
                    num (length (filter (\<lambda>t. clientId t = c \<and> status t = Closed) (tickets d)))),
                 (''pending'',
                    num (length (filter (\<lambda>t. clientId t = c \<and> status t = Open) (tickets d))))]"
  have all: "snd (promise_all (map (company_item d) (group_count clientId (tickets d)))) =
             Inr (map (\<lambda>item. ?entry (fst item)) (group_count clientId (tickets d)))"
    by (rule promise_all_fulfilled) (rule company_item_up [OF assms])
  have "map (\<lambda>item. ?entry (fst item)) (group_count clientId (tickets d)) = map ?entry ?cs"
    by (simp add: group_count_map o_def)
  with all have "snd (getCompanySummary d) = Inr (json_response 200 (Arr (map ?entry ?cs)))"
    using assms
    by (simp add: getCompanySummary_def prisma_ticket_groupBy_clientId_def return_def)
  moreover have "distinct ?cs" and "set ?cs = clientId ` set (tickets d)"
    by simp_all
  ultimately show ?thesis by blast
qed

theorem getCompanySummary_groups_witness:
  "store_up demo_db \<and> (\<exists>cs. distinct cs \<and> set cs = clientId ` set (tickets demo_db) \<and>
    snd (getCompanySummary demo_db) = Inr (json_response 200 (Arr (map
      (\<lambda>c. Obj [(''name'', Str (case find (\<lambda>p. person_id p = c) (persons demo_db) of
                                  Some p \<Rightarrow> firstName p @ '' '' @ lastName p
                                | None \<Rightarrow> ''Unknown'')),
                 (''completed'',
                    num (length (filter (\<lambda>t. clientId t = c \<and> status t = Closed) (tickets demo_db)))),
                 (''pending'',
                    num (length (filter (\<lambda>t. clientId t = c \<and> status t = Open) (tickets demo_db))))])
      cs))))"
  using getCompanySummary_groups [OF store_up_demo] store_up_demo by simp

subsection \<open>Technician performance\<close>

lemma technician_item_up:
  assumes "store_up d"
  shows "snd (technician_item d (Some u, n)) = Inr
     (case find (\<lambda>p. person_id p = u) (persons d) of
        None \<Rightarrow> None
      | Some p \<Rightarrow> Some
         (Obj [(''name'', Str (firstName p @ '' '' @ lastName p)),
               (''total'', num n),
               (''completed'',
                  num (length (filter (\<lambda>t. userId t = Some u \<and> status t = Closed) (tickets d)))),
               (''pending'',
                  num (length (filter (\<lambda>t. userId t = Some u \<and> status t = Open) (tickets d))))]))"
  using assms
  by (simp add: technician_item_def prisma_person_findUnique_def prisma_ticket_count_def
      return_def matches_user_status split: option.splits)

text \<open>
  C4. When the store answers, the technician report has one group for each distinct
  non-null \<open>userId\<close> among the tickets whose Person exists, and no other group: none
  for the tickets without a technician, none for a technician whose Person is missing.
  Each group is \<open>{ name: "<first> <last>", total, completed, pending }\<close>, counting the
  technician's tickets, those with status Closed and those with status Open.
\<close>

theorem getTechnicianPerformance_groups:
  assumes "store_up d"
  shows "\<exists>us. distinct us \<and>
    set us = {u. Some u \<in> userId ` set (tickets d) \<and> u \<in> person_id ` set (persons d)} \<and>
    snd (getTechnicianPerformance d) = Inr (json_response 200 (Arr (map
      (\<lambda>u. Obj [(''name'', Str (firstName (the (find (\<lambda>p. person_id p = u) (persons d))) @ '' '' @
                              lastName (the (find (\<lambda>p. person_id p = u) (persons d))))),
                 (''total'', num (length (filter (\<lambda>t. userId t = Some u) (tickets d)))),
                 (''completed'',
                    num (length (filter (\<lambda>t. userId t = Some u \<and> status t = Closed) (tickets d)))),
                 (''pending'',
                    num (length (filter (\<lambda>t. userId t = Some u \<and> status t = Open) (tickets d))))])
      us)))"
proof -
  let ?ks = "remdups (map userId (tickets d))"
  let ?assigned = "map the (filter (\<lambda>k. k \<noteq> None) ?ks)"
  let ?cnt = "\<lambda>k. length (filter (\<lambda>t. userId t = k) (tickets d))"
  let ?found = "\<lambda>u. find (\<lambda>p. person_id p = u) (persons d)"
  let ?entry = "\<lambda>u. Obj [(''name'', Str (firstName (the (?found u)) @ '' '' @ lastName (the (?found u)))),
                 (''total'', num (?cnt (Some u))),
                 (''completed'',
                    num (length (filter (\<lambda>t. userId t = Some u \<and> status t = Closed) (tickets d)))),
                 (''pending'',
                    num (length (filter (\<lambda>t. userId t = Some u \<and> status t = Open) (tickets d))))]"
  let ?g = "\<lambda>u. case ?found u of None \<Rightarrow> None | Some p \<Rightarrow> Some (?entry u)"
  let ?us = "filter (\<lambda>u. ?found u \<noteq> None) ?assigned"
  have items: "filter (\<lambda>item. fst item \<noteq> None) (group_count userId (tickets d)) =
               map (\<lambda>u. (Some u, ?cnt (Some u))) ?assigned"
    by (simp add: group_count_map filter_map o_def somes_map [symmetric])
  have each: "snd (technician_item d (Some u, ?cnt (Some u))) = Inr (?g u)" for u
    using technician_item_up [OF assms, of u "?cnt (Some u)"]
    by (simp split: option.splits)
  have all: "snd (promise_all (map (technician_item d) (map (\<lambda>u. (Some u, ?cnt (Some u))) ?assigned))) =
             Inr (map ?g ?assigned)"
    using promise_all_fulfilled [of ?assigned "\<lambda>u. technician_item d (Some u, ?cnt (Some u))" ?g] each
    by (simp add: o_def)
  have kept: "map the (filter (\<lambda>r. r \<noteq> None) (map ?g ?assigned)) = map ?entry ?us"
  proof -
    have "map the (filter (\<lambda>r. r \<noteq> None) (map ?g ?assigned)) =
          map (\<lambda>u. the (?g u)) (filter (\<lambda>u. ?g u \<noteq> None) ?assigned)"
      by (rule filter_Boolean)
    also have "filter (\<lambda>u. ?g u \<noteq> None) ?assigned = ?us"
      by (rule filter_cong) (auto split: option.splits)
    also have "map (\<lambda>u. the (?g u)) ?us = map ?entry ?us"
      by (rule map_cong) (auto split: option.splits)
    finally show ?thesis .
  qed
  have "snd (getTechnicianPerformance d) =
          (case snd (promise_all (map (technician_item d)
                  (filter (\<lambda>item. fst item \<noteq> None) (group_count userId (tickets d))))) of
             Inl e \<Rightarrow> Inr (json_response 500
               (message (''Hubo un error al obtener el rendimiento de los t'' @ e_acute @ ''cnicos'')))
           | Inr result \<Rightarrow>
               Inr (json_response 200 (Arr (map the (filter (\<lambda>r. r \<noteq> None) result)))))"
    using assms
    by (simp add: getTechnicianPerformance_def prisma_ticket_groupBy_userId_def return_def
        try_catch_def await_def split: sum.splits del: not_None_eq)
  then have resp:
    "snd (getTechnicianPerformance d) = Inr (json_response 200 (Arr (map ?entry ?us)))"
    unfolding items all sum.case kept .
  have "distinct ?assigned"
    by (rule somes_distinct) simp
  then have dist: "distinct ?us"
    by (rule distinct_filter)
  have members: "set ?us = {u. Some u \<in> userId ` set (tickets d) \<and> u \<in> person_id ` set (persons d)}"
    unfolding set_filter somes_set by (auto simp: find_None_iff image_iff)
  from dist members resp show ?thesis by blast
qed

theorem getTechnicianPerformance_groups_witness:
  "store_up demo_db \<and> (\<exists>us. distinct us \<and>
    set us = {u. Some u \<in> userId ` set (tickets demo_db) \<and> u \<in> person_id ` set (persons demo_db)} \<and>
    snd (getTechnicianPerformance demo_db) = Inr (json_response 200 (Arr (map
      (\<lambda>u. Obj [(''name'', Str (firstName (the (find (\<lambda>p. person_id p = u) (persons demo_db))) @ '' '' @
                              lastName (the (find (\<lambda>p. person_id p = u) (persons demo_db))))),
                 (''total'', num (length (filter (\<lambda>t. userId t = Some u) (tickets demo_db)))),
                 (''completed'',
                    num (length (filter (\<lambda>t. userId t = Some u \<and> status t = Closed) (tickets demo_db)))),
                 (''pending'',
                    num (length (filter (\<lambda>t. userId t = Some u \<and> status t = Open) (tickets demo_db))))])
      us))))"
  using getTechnicianPerformance_groups [OF store_up_demo] store_up_demo by simp

subsection \<open>Entries of the by-category report\<close>

lemma category_item_listed:
  assumes "ticketMetadata (fst item) \<noteq> None"
  shows "snd (category_item ticketMetadata item) = Inr
     (Obj [(''type'', meta_text (the (ticketMetadata (fst item)))),
           (''_count'', Obj [(''_all'', num (snd item))]),
           (''color'', meta_color (the (ticketMetadata (fst item)))),
           (''icon'', meta_icon (the (ticketMetadata (fst item))))])"
  using assms by (auto simp: category_item_def type_property_def read_field_def return_def)

text \<open>
  C2, as the code has it. When the store answers and every ticket type has a catalog
  entry, the by-category report has one entry for each distinct type among the tickets,
  each type once. The entry is \<open>{ type: <label>, _count: { _all: n }, color, icon }\<close>
  where label, color and icon are the catalog values of the type and \<open>n\<close> is the number
  of tickets of the type.
\<close>

theorem getByCategory_entries:
  assumes "store_up d" and "\<forall>t\<in>set (tickets d). ticketMetadata (type t) \<noteq> None"
  shows "\<exists>tys. distinct tys \<and> set tys = type ` set (tickets d) \<and>
    snd (getByCategory ticketMetadata d) = Inr (json_response 200 (Arr (map
      (\<lambda>ty. Obj [(''type'', meta_text (the (ticketMetadata ty))),
                  (''_count'',
                     Obj [(''_all'', num (length (filter (\<lambda>t. type t = ty) (tickets d))))]),
                  (''color'', meta_color (the (ticketMetadata ty))),
                  (''icon'', meta_icon (the (ticketMetadata ty)))])
      tys)))"
proof -
  let ?tys = "remdups (map type (tickets d))"
  let ?item = "\<lambda>item. Obj [(''type'', meta_text (the (ticketMetadata (fst item)))),
                  (''_count'', Obj [(''_all'', num (snd item))]),
                  (''color'', meta_color (the (ticketMetadata (fst item)))),
                  (''icon'', meta_icon (the (ticketMetadata (fst item))))]"
  let ?entry = "\<lambda>ty. Obj [(''type'', meta_text (the (ticketMetadata ty))),
                  (''_count'',
                     Obj [(''_all'', num (length (filter (\<lambda>t. type t = ty) (tickets d))))]),
                  (''color'', meta_color (the (ticketMetadata ty))),
                  (''icon'', meta_icon (the (ticketMetadata ty)))]"
  have listed: "ticketMetadata (fst item) \<noteq> None"
    if "item \<in> set (group_count type (tickets d))" for item
    using that assms(2) group_count_keys [of type "tickets d"] by force
  have all: "snd (array_map (category_item ticketMetadata) (group_count type (tickets d))) =
             Inr (map ?item (group_count type (tickets d)))"
    by (rule array_map_fulfilled) (rule category_item_listed, rule listed)
  have "map ?item (group_count type (tickets d)) = map ?entry ?tys"
    by (simp add: group_count_map o_def)
  with all have "snd (getByCategory ticketMetadata d) = Inr (json_response 200 (Arr (map ?entry ?tys)))"
    using assms(1)
    by (simp add: getByCategory_def prisma_ticket_groupBy_type_def return_def)
  moreover have "distinct ?tys" and "set ?tys = type ` set (tickets d)"
    by simp_all
  ultimately show ?thesis by blast
qed

lemma demo_meta_lists_demo_db: "\<forall>t\<in>set (tickets demo_db). demo_meta (type t) \<noteq> None"
  by (simp add: demo_db_def demo_meta_def mk_ticket_def)

theorem getByCategory_entries_witness:
  "store_up demo_db \<and> list_all (\<lambda>t. demo_meta (type t) \<noteq> None) (tickets demo_db) \<and>
   (\<exists>tys. distinct tys \<and> set tys = type ` set (tickets demo_db) \<and>
    snd (getByCategory demo_meta demo_db) = Inr (json_response 200 (Arr (map
      (\<lambda>ty. Obj [(''type'', meta_text (the (demo_meta ty))),
                  (''_count'',
                     Obj [(''_all'', num (length (filter (\<lambda>t. type t = ty) (tickets demo_db))))]),
                  (''color'', meta_color (the (demo_meta ty))),
                  (''icon'', meta_icon (the (demo_meta ty)))])
      tys))))"
  using getByCategory_entries [OF store_up_demo demo_meta_lists_demo_db]
        store_up_demo demo_meta_lists_demo_db
  by (simp add: list_all_iff)

subsection \<open>Month keys\<close>

lemma length_pad [simp]: "length (pad w n) = w"
  by (induction w arbitrary: n) simp_all

lemma digit_char_inj:
  assumes "a < 10" and "b < 10" and "digit_char a = digit_char b"
  shows "a = b"
proof -
  have "distinct ''0123456789''" by simp
  moreover have "a < length ''0123456789''" and "b < length ''0123456789''"
    using assms(1,2) by simp_all
  ultimately show ?thesis
    using assms(3) unfolding digit_char_def by (simp only: nth_eq_iff_index_eq)
qed

lemma pad_inj:
  "n < 10 ^ w \<Longrightarrow> m < 10 ^ w \<Longrightarrow> pad w n = pad w m \<Longrightarrow> n = m"
proof (induction w arbitrary: n m)
  case 0
  then show ?case by simp
next
  case (Suc w)
  from Suc.prems(3) have front: "pad w (n div 10) = pad w (m div 10)"
    and last: "digit_char (n mod 10) = digit_char (m mod 10)"
    by simp_all
  have "n div 10 < 10 ^ w" and "m div 10 < 10 ^ w"
    using Suc.prems(1,2) by (simp_all add: less_mult_imp_div_less mult.commute)
  with front have "n div 10 = m div 10"
    by (rule Suc.IH [rotated 2])
  moreover from last have "n mod 10 = m mod 10"
    by (intro digit_char_inj) simp_all
  ultimately show ?case
    by (metis div_mult_mod_eq)
qed

lemma month_key:
  assumes "ordinary_date d"
  shows "take 7 (toISOString d) = month_label (calendar_month d)"
  using assms
  by (simp add: toISOString_def iso_year_def month_label_def calendar_month_def ordinary_date_def)

lemma month_label_inj:
  assumes "ordinary_date a" and "ordinary_date b"
    and "month_label (calendar_month a) = month_label (calendar_month b)"
  shows "calendar_month a = calendar_month b"
proof -
  from assms(3) have y: "pad 4 (nat (year a)) = pad 4 (nat (year b))"
    and m: "pad 2 (month a) = pad 2 (month b)"
    by (simp_all add: month_label_def calendar_month_def)
  have "nat (year a) < 10 ^ 4" and "nat (year b) < 10 ^ 4"
    using assms(1,2) by (auto simp: ordinary_date_def nat_less_iff)
  with y have "nat (year a) = nat (year b)"
    by (rule pad_inj [rotated 2])
  then have "year a = year b"
    using assms(1,2) by (simp add: ordinary_date_def eq_nat_nat_iff)
  moreover have "month a < 10 ^ 2" and "month b < 10 ^ 2"
    using assms(1,2) by (simp_all add: ordinary_date_def)
  with m have "month a = month b"
    by (rule pad_inj [rotated 2])
  ultimately show ?thesis
    by (simp add: calendar_month_def)
qed

subsection \<open>The reduction of the monthly summary\<close>

lemma keyed_lookup:
  assumes "keyed acc" and "map_of acc K = Some e"
  shows "e = (K, bucket_base acc K)"
proof -
  from assms(2) have "(K, e) \<in> set acc"
    by (rule map_of_SomeD)
  with assms(1) have "fst e = K"
    by (auto simp: keyed_def list_all_iff)
  with assms(2) show ?thesis
    by (simp add: bucket_base_def prod_eq_iff)
qed

lemma monthly_reducer_map_of:
  assumes "keyed acc"
  shows "map_of (monthly_reducer acc item) =
         (map_of acc)(take 7 (toISOString (fst item)) \<mapsto>
            (take 7 (toISOString (fst item)),
             bucket_base acc (take 7 (toISOString (fst item))) + snd item))"
proof (cases "map_of acc (take 7 (toISOString (fst item)))")
  case None
  then show ?thesis
    by (simp add: monthly_reducer_def Let_def map_of_map_entry update_conv' bucket_base_def)
next
  case (Some e)
  from keyed_lookup [OF assms Some] Some show ?thesis
    by (simp add: monthly_reducer_def Let_def map_of_map_entry)
qed

lemma monthly_reducer_keyed:
  assumes "keyed acc"
  shows "keyed (monthly_reducer acc item)"
proof -
  have d: "distinct (map fst (monthly_reducer acc item))"
    using assms
    by (simp add: monthly_reducer_def Let_def keyed_def distinct_map_entry distinct_update)
  have "fst (snd x) = fst x" if "x \<in> set (monthly_reducer acc item)" for x
  proof -
    from that have "(fst x, snd x) \<in> set (monthly_reducer acc item)"
      by simp
    with d have look: "map_of (monthly_reducer acc item) (fst x) = Some (snd x)"
      by (rule map_of_is_SomeI)
    show ?thesis
    proof (cases "fst x = take 7 (toISOString (fst item))")
      case True
      with look show ?thesis
        by (cases x) (auto simp: monthly_reducer_map_of [OF assms])
    next
      case False
      with look have "map_of acc (fst x) = Some (snd x)"
        by (simp add: monthly_reducer_map_of [OF assms])
      from keyed_lookup [OF assms this] show ?thesis
        by simp
    qed
  qed
  with d show ?thesis
    by (simp add: keyed_def list_all_iff)
qed

lemma reduce_map_of:
  assumes "keyed acc"
  shows "keyed (foldl monthly_reducer acc rows) \<and>
    (\<forall>K. map_of (foldl monthly_reducer acc rows) K =
       (if K \<in> (\<lambda>r. take 7 (toISOString (fst r))) ` set rows \<or> map_of acc K \<noteq> None
        then Some (K, bucket_base acc K + bucket_total K rows) else None))"
  using assms
proof (induction rows arbitrary: acc)
  case Nil
  have "map_of (foldl monthly_reducer acc []) K =
        (if K \<in> (\<lambda>r. take 7 (toISOString (fst r))) ` set [] \<or> map_of acc K \<noteq> None
         then Some (K, bucket_base acc K + bucket_total K []) else None)" for K
    using keyed_lookup [OF Nil, of K]
    by (cases "map_of acc K") (auto simp: bucket_total_def)
  with Nil show ?case
    by simp
next
  case (Cons r rows)
  let ?R = "take 7 (toISOString (fst r))"
  note step = Cons.IH [OF monthly_reducer_keyed [OF Cons.prems, of r]]
  from step have "keyed (foldl monthly_reducer acc (r # rows))"
    by simp
  moreover have "map_of (foldl monthly_reducer acc (r # rows)) K =
       (if K \<in> (\<lambda>r. take 7 (toISOString (fst r))) ` set (r # rows) \<or> map_of acc K \<noteq> None
        then Some (K, bucket_base acc K + bucket_total K (r # rows)) else None)" for K
  proof (cases "K = ?R")
    case True
    have "bucket_base (monthly_reducer acc r) ?R = bucket_base acc ?R + snd r"
      by (simp add: bucket_base_def monthly_reducer_map_of [OF Cons.prems])
    moreover have "bucket_total ?R (r # rows) = snd r + bucket_total ?R rows"
      by (simp add: bucket_total_def)
    moreover have "map_of (monthly_reducer acc r) ?R \<noteq> None"
      by (simp add: monthly_reducer_map_of [OF Cons.prems])
    ultimately show ?thesis
      using step True by simp
  next
    case False
    have "bucket_base (monthly_reducer acc r) K = bucket_base acc K"
      using False by (simp add: bucket_base_def monthly_reducer_map_of [OF Cons.prems])
    moreover have "bucket_total K (r # rows) = bucket_total K rows"
      using False by (auto simp: bucket_total_def)
    moreover have "map_of (monthly_reducer acc r) K = map_of acc K"
      using False by (simp add: monthly_reducer_map_of [OF Cons.prems])
    ultimately show ?thesis
      using step False by auto
  qed
  ultimately show ?case by blast
qed

lemma reduce_values:
  "\<exists>keys. distinct keys \<and>
     set keys = (\<lambda>r. take 7 (toISOString (fst r))) ` set rows \<and>
     map snd (foldl monthly_reducer [] rows) = map (\<lambda>K. (K, bucket_total K rows)) keys"
proof -
  let ?acc = "foldl monthly_reducer [] rows"
  have start: "keyed []"
    by (simp add: keyed_def)
  from reduce_map_of [OF start, of rows]
  have k: "keyed ?acc"
    and m: "\<And>K. map_of ?acc K =
       (if K \<in> (\<lambda>r. take 7 (toISOString (fst r))) ` set rows
        then Some (K, bucket_total K rows) else None)"
    by (simp_all add: bucket_base_def)
  from k have d: "distinct (map fst ?acc)"
    by (simp add: keyed_def)
  have "snd x = (fst x, bucket_total (fst x) rows)" if "x \<in> set ?acc" for x
  proof -
    from that have "(fst x, snd x) \<in> set ?acc"
      by simp
    with d have "map_of ?acc (fst x) = Some (snd x)"
      by (rule map_of_is_SomeI)
    then show ?thesis
      by (simp add: m split: if_splits)
  qed
  then have "map snd ?acc = map (\<lambda>K. (K, bucket_total K rows)) (map fst ?acc)"
    by simp
  moreover have "set (map fst ?acc) = (\<lambda>r. take 7 (toISOString (fst r))) ` set rows"
  proof -
    have "set (map fst ?acc) = dom (map_of ?acc)"
      by (simp add: dom_map_of_conv_image_fst)
    also have "\<dots> = (\<lambda>r. take 7 (toISOString (fst r))) ` set rows"
      by (auto simp: m dom_def)
    finally show ?thesis .
  qed
  ultimately show ?thesis
    using d by blast
qed

lemma length_filter_add:
  "(\<And>x. x \<in> set xs \<Longrightarrow> \<not> (P x \<and> Q x)) \<Longrightarrow>
   length (filter P xs) + length (filter Q xs) = length (filter (\<lambda>x. P x \<or> Q x) xs)"
  by (induction xs) auto

lemma sum_group_counts:
  "distinct ks \<Longrightarrow>
   sum_list (map (\<lambda>k. length (filter (\<lambda>t. f t = k) ts)) ks) =
   length (filter (\<lambda>t. f t \<in> set ks) ts)"
proof (induction ks)
  case Nil
  then show ?case by simp
next
  case (Cons k ks)
  have "length (filter (\<lambda>t. f t = k) ts) + length (filter (\<lambda>t. f t \<in> set ks) ts) =
        length (filter (\<lambda>t. f t = k \<or> f t \<in> set ks) ts)"
    using Cons.prems by (intro length_filter_add) auto
  with Cons show ?case
    by simp
qed

lemma bucket_total_group_count:
  "bucket_total K (sort_key (\<lambda>item. date_key (fst item)) (group_count createdAt ts)) =
   length (filter (\<lambda>t. take 7 (toISOString (createdAt t)) = K) ts)"
proof -
  let ?P = "\<lambda>r :: Date \<times> nat. take 7 (toISOString (fst r)) = K"
  let ?Q = "\<lambda>c. take 7 (toISOString c) = K"
  let ?cnt = "\<lambda>c. length (filter (\<lambda>t. createdAt t = c) ts)"
  let ?ds = "remdups (map createdAt ts)"
  let ?rows = "sort_key (\<lambda>item. date_key (fst item)) (group_count createdAt ts)"
  have "sum_list (map snd (filter ?P ?rows)) =
        sum_mset (image_mset snd (filter_mset ?P (mset ?rows)))"
    by (simp flip: sum_mset_sum_list)
  also have "\<dots> = sum_mset (image_mset snd (filter_mset ?P (mset (group_count createdAt ts))))"
    by simp
  also have "\<dots> = sum_list (map snd (filter ?P (group_count createdAt ts)))"
    by (simp flip: sum_mset_sum_list)
  also have "\<dots> = sum_list (map ?cnt (filter ?Q ?ds))"
    by (simp add: group_count_map filter_map o_def)
  also have "\<dots> = length (filter (\<lambda>t. createdAt t \<in> set (filter ?Q ?ds)) ts)"
    by (rule sum_group_counts) simp
  also have "\<dots> = length (filter (\<lambda>t. ?Q (createdAt t)) ts)"
    by (rule arg_cong [where f = length], rule filter_cong) auto
  finally show ?thesis
    by (simp add: bucket_total_def)
qed

lemma group_rows_keys:
  "(\<lambda>r. take 7 (toISOString (fst r))) `
     set (sort_key (\<lambda>item. date_key (fst item)) (group_count createdAt ts)) =
   (\<lambda>t. take 7 (toISOString (createdAt t))) ` set ts"
proof -
  have "fst ` set (sort_key (\<lambda>item. date_key (fst item)) (group_count createdAt ts)) =
        createdAt ` set ts"
    by (simp add: group_count_keys)
  then have "(\<lambda>c. take 7 (toISOString c)) `
               fst ` set (sort_key (\<lambda>item. date_key (fst item)) (group_count createdAt ts)) =
             (\<lambda>c. take 7 (toISOString c)) ` createdAt ` set ts"
    by simp
  then show ?thesis
    by (simp add: image_image)
qed

lemma getMonthlySummary_up:
  assumes "store_up d"
  shows "snd (getMonthlySummary d) = Inr (json_response 200 (Arr (map
      (\<lambda>e. Obj [(''month'', Str (fst e)), (''tickets'', num (snd e))])
      (map snd (foldl monthly_reducer []
         (sort_key (\<lambda>item. date_key (fst item)) (group_count createdAt (tickets d))))))))"
  using assms
  by (simp add: getMonthlySummary_def prisma_ticket_groupBy_createdAt_def return_def Let_def)

text \<open>
  When the store answers and the creation timestamps have four-digit years, the
  monthly summary has exactly one pair \<open>{ month, tickets }\<close> for each calendar month
  (UTC) in which a ticket was created: \<open>month\<close> is the \<open>YYYY-MM\<close> label of the
  month and \<open>tickets\<close> the number of tickets created in it, whatever their days.
\<close>

lemma getMonthlySummary_buckets:
  assumes "store_up d" and "\<forall>t\<in>set (tickets d). ordinary_date (createdAt t)"
  shows "\<exists>ms. distinct ms \<and>
    set ms = (\<lambda>t. calendar_month (createdAt t)) ` set (tickets d) \<and>
    snd (getMonthlySummary d) = Inr (json_response 200 (Arr (map
      (\<lambda>ym. Obj [(''month'', Str (month_label ym)),
                  (''tickets'',
                     num (length (filter (\<lambda>t. calendar_month (createdAt t) = ym) (tickets d))))])
      ms)))"
proof -
  let ?rows = "sort_key (\<lambda>item. date_key (fst item)) (group_count createdAt (tickets d))"
  let ?S = "(\<lambda>t. calendar_month (createdAt t)) ` set (tickets d)"
  let ?in_month = "\<lambda>ym. length (filter (\<lambda>t. calendar_month (createdAt t) = ym) (tickets d))"
  have key: "take 7 (toISOString (createdAt t)) = month_label (calendar_month (createdAt t))"
    if "t \<in> set (tickets d)" for t
    using that assms(2) by (simp add: month_key)
  have inj: "inj_on month_label ?S"
  proof (rule inj_onI)
    fix a b assume "a \<in> ?S" and "b \<in> ?S" and eq: "month_label a = month_label b"
    then obtain t u where t: "t \<in> set (tickets d)" "a = calendar_month (createdAt t)"
      and u: "u \<in> set (tickets d)" "b = calendar_month (createdAt u)"
      by auto
    from t(1) u(1) assms(2) have "ordinary_date (createdAt t)" and "ordinary_date (createdAt u)"
      by simp_all
    from month_label_inj [OF this] eq t(2) u(2) show "a = b"
      by simp
  qed
  from reduce_values [of ?rows] obtain keys where
    keys: "distinct keys"
      "set keys = (\<lambda>r. take 7 (toISOString (fst r))) ` set ?rows"
      "map snd (foldl monthly_reducer [] ?rows) = map (\<lambda>K. (K, bucket_total K ?rows)) keys"
    by blast
  from keys(2) have keys_S: "set keys = month_label ` ?S"
    unfolding group_rows_keys using key by (auto simp: image_iff)
  define ms where "ms = map (inv_into ?S month_label) keys"
  have labels: "map month_label ms = keys"
    unfolding ms_def map_map o_def
    by (rule map_idI) (simp add: keys_S f_inv_into_f)
  have "distinct (map month_label ms)"
    using keys(1) labels by simp
  then have dist: "distinct ms"
    by (simp add: distinct_map)
  have members: "set ms = ?S"
    unfolding ms_def set_map keys_S using inj by (simp add: image_image)
  have total: "bucket_total (month_label ym) ?rows = ?in_month ym" if "ym \<in> set ms" for ym
  proof -
    from that members obtain u where u: "u \<in> set (tickets d)" "ym = calendar_month (createdAt u)"
      by auto
    have "(take 7 (toISOString (createdAt t)) = month_label ym) =
          (calendar_month (createdAt t) = ym)" if "t \<in> set (tickets d)" for t
    proof -
      from that u(1) assms(2) have "ordinary_date (createdAt t)" and "ordinary_date (createdAt u)"
        by simp_all
      from month_label_inj [OF this] key [OF that] u(2) show ?thesis
        by auto
    qed
    then have "filter (\<lambda>t. take 7 (toISOString (createdAt t)) = month_label ym) (tickets d) =
               filter (\<lambda>t. calendar_month (createdAt t) = ym) (tickets d)"
      by (intro filter_cong) simp_all
    then show ?thesis
      by (simp add: bucket_total_group_count)
  qed
  have "map snd (foldl monthly_reducer [] ?rows) =
        map (\<lambda>K. (K, bucket_total K ?rows)) (map month_label ms)"
    using keys(3) labels by simp
  also have "\<dots> = map (\<lambda>ym. (month_label ym, ?in_month ym)) ms"
    unfolding map_map o_def by (rule map_cong) (simp_all add: total)
  finally have buckets: "map snd (foldl monthly_reducer [] ?rows) =
        map (\<lambda>ym. (month_label ym, ?in_month ym)) ms" .
  have "snd (getMonthlySummary d) = Inr (json_response 200 (Arr (map
      (\<lambda>e. Obj [(''month'', Str (fst e)), (''tickets'', num (snd e))])
      (map snd (foldl monthly_reducer [] ?rows)))))"
    by (rule getMonthlySummary_up [OF assms(1)])
  then have "snd (getMonthlySummary d) = Inr (json_response 200 (Arr (map
      (\<lambda>ym. Obj [(''month'', Str (month_label ym)), (''tickets'', num (?in_month ym))]) ms)))"
    unfolding buckets map_map o_def fst_conv snd_conv .
  with dist members show ?thesis
    by blast
qed

lemma store_up_spec_example: "store_up spec_example_db"
  by (simp add: store_up_def spec_example_db_def)

lemma ordinary_spec_example: "\<forall>t\<in>set (tickets spec_example_db). ordinary_date (createdAt t)"
  by (simp add: spec_example_db_def mk_ticket_def mk_date_def ordinary_date_def)

lemma getMonthlySummary_buckets_example:
  "store_up spec_example_db \<and>
   list_all (\<lambda>t. ordinary_date (createdAt t)) (tickets spec_example_db) \<and>
   (\<exists>ms. distinct ms \<and>
    set ms = (\<lambda>t. calendar_month (createdAt t)) ` set (tickets spec_example_db) \<and>
    snd (getMonthlySummary spec_example_db) = Inr (json_response 200 (Arr (map
      (\<lambda>ym. Obj [(''month'', Str (month_label ym)),
                  (''tickets'',
                     num (length (filter (\<lambda>t. calendar_month (createdAt t) = ym)
                                         (tickets spec_example_db))))])
      ms))))"
  using getMonthlySummary_buckets [OF store_up_spec_example ordinary_spec_example]
        store_up_spec_example ordinary_spec_example
  by (simp add: list_all_iff)

text \<open>Padding at the widths of an ISO string, for the examples.\<close>

lemma pad_2: "pad 2 n = [digit_char (n div 10 mod 10), digit_char (n mod 10)]"
proof -
  have "pad 2 n = pad (Suc (Suc 0)) n"
    by (simp only: numeral_2_eq_2)
  then show ?thesis by simp
qed

lemma pad_3:
  "pad 3 n = [digit_char (n div 10 div 10 mod 10), digit_char (n div 10 mod 10),
              digit_char (n mod 10)]"
proof -
  have "pad 3 n = pad (Suc (Suc (Suc 0))) n"
    by (simp only: numeral_3_eq_3)
  then show ?thesis by simp
qed

lemma pad_4:
  "pad 4 n = [digit_char (n div 10 div 10 div 10 mod 10), digit_char (n div 10 div 10 mod 10),
              digit_char (n div 10 mod 10), digit_char (n mod 10)]"
proof -
  have "(4::nat) = Suc (Suc (Suc (Suc 0)))"
    by simp
  then have "pad 4 n = pad (Suc (Suc (Suc (Suc 0)))) n"
    by (simp only:)
  then show ?thesis by simp
qed



text \<open>The example of the specification gives its two buckets.\<close>

lemma getMonthlySummary_spec_example:
  "snd (getMonthlySummary spec_example_db) = Inr
     \<lparr>resp_status = 200,
      resp_headers = [(''Content-Type'', ''application/json'')],
      resp_body = JArray [JObject [(''month'', JString ''2024-01''), (''tickets'', JNumber 2)],
                          JObject [(''month'', JString ''2024-02''), (''tickets'', JNumber 1)]]\<rparr>"
proof -
  have rows: "sort_key (\<lambda>item. date_key (fst item))
                (group_count createdAt (tickets spec_example_db)) =
              [(mk_date 2024 1 5, 1), (mk_date 2024 1 20, 1), (mk_date 2024 2 1, 1)]"
    by (simp add: spec_example_db_def group_count_def mk_ticket_def mk_date_def date_key_def)
  have k1: "take 7 (toISOString (mk_date 2024 1 5)) = ''2024-01''"
    by (simp add: toISOString_def iso_year_def mk_date_def pad_2 pad_4 digit_char_def)
  have k2: "take 7 (toISOString (mk_date 2024 1 20)) = ''2024-01''"
    by (simp add: toISOString_def iso_year_def mk_date_def pad_2 pad_4 digit_char_def)
  have k3: "take 7 (toISOString (mk_date 2024 2 1)) = ''2024-02''"
    by (simp add: toISOString_def iso_year_def mk_date_def pad_2 pad_4 digit_char_def)
  have s1: "monthly_reducer [] (mk_date 2024 1 5, 1) = [(''2024-01'', ''2024-01'', 1)]"
    by (simp add: monthly_reducer_def Let_def k1 del: One_nat_def)
  have s2: "monthly_reducer [(''2024-01'', ''2024-01'', 1)] (mk_date 2024 1 20, 1) =
            [(''2024-01'', ''2024-01'', 2)]"
    by (simp add: monthly_reducer_def Let_def k2 del: One_nat_def)
  have s3: "monthly_reducer [(''2024-01'', ''2024-01'', 2)] (mk_date 2024 2 1, 1) =
            [(''2024-01'', ''2024-01'', 2), (''2024-02'', ''2024-02'', 1)]"
    by (simp add: monthly_reducer_def Let_def k3 del: One_nat_def)
  have reduced: "foldl monthly_reducer []
                   [(mk_date 2024 1 5, 1), (mk_date 2024 1 20, 1), (mk_date 2024 2 1, 1)] =
                 [(''2024-01'', ''2024-01'', 2), (''2024-02'', ''2024-02'', 1)]"
    by (simp only: foldl_Cons foldl_Nil s1 s2 s3)
  show ?thesis
    unfolding getMonthlySummary_up [OF store_up_spec_example] rows reduced
    by (simp add: json_response_def num_def)
qed


subsection \<open>A run never repeats a query\<close>

text \<open>
  Within one run of a report every query is sent at most once, so the failures of a run
  are a set of queries: the predicate \<open>failing\<close> loses nothing.
\<close>

lemma promise_all_log: "fst (promise_all ms) = concat (map fst ms)"
  by (induction ms) simp_all

lemma try_catch_log: "fst (try_catch m (\<lambda>e. ([], h e))) = fst m"
  by (simp add: try_catch_def split: sum.splits)

lemma await_log:
  "fst (await m k) = fst m @ (case snd m of Inl e \<Rightarrow> [] | Inr x \<Rightarrow> fst (k x))"
  by (simp add: await_def split: sum.splits)

lemma array_map_category_log: "fst (array_map (category_item ticketMetadata) xs) = []"
  by (induction xs)
     (simp_all add: await_log category_item_def read_field_def return_def throw_def
        split: property.splits sum.splits)

lemma company_item_log:
  "distinct (fst (company_item d item)) \<and>
   set (fst (company_item d item)) \<subseteq>
     {Person_findUnique (fst item),
      Ticket_count (no_where\<lparr>where_clientId := Some (fst item), where_status := Some Closed\<rparr>),
      Ticket_count (no_where\<lparr>where_clientId := Some (fst item), where_status := Some Open\<rparr>)}"
  by (simp add: company_item_def prisma_person_findUnique_def prisma_ticket_count_def
      run_query_def await_def return_def no_where_def)

lemma technician_item_log:
  "distinct (fst (technician_item d (Some u, n))) \<and>
   set (fst (technician_item d (Some u, n))) \<subseteq>
     {Person_findUnique u,
      Ticket_count (no_where\<lparr>where_userId := Some u, where_status := Some Closed\<rparr>),
      Ticket_count (no_where\<lparr>where_userId := Some u, where_status := Some Open\<rparr>)}"
  by (simp add: technician_item_def prisma_person_findUnique_def prisma_ticket_count_def
      run_query_def await_def return_def no_where_def split: option.splits)

lemma company_logs_distinct:
  "distinct (map fst items) \<Longrightarrow>
   distinct (concat (map (\<lambda>item. fst (company_item d item)) items)) \<and>
   Ticket_groupBy F_clientId \<notin> set (concat (map (\<lambda>item. fst (company_item d item)) items))"
proof (induction items)
  case Nil
  then show ?case by simp
next
  case (Cons item items)
  have other: "q \<notin> set (fst (company_item d item))"
    if "q \<in> set (concat (map (\<lambda>item. fst (company_item d item)) items))" for q
  proof -
    from that obtain item' where item':
      "item' \<in> set items" "q \<in> set (fst (company_item d item'))"
      by auto
    from item'(1) have "fst item' \<in> fst ` set items"
      by (rule imageI)
    moreover from Cons.prems have "fst item \<notin> fst ` set items"
      by simp
    ultimately have "fst item' \<noteq> fst item"
      by metis
    with item'(2) show ?thesis
      using company_item_log [of d item] company_item_log [of d item']
      by (auto simp: no_where_def)
  qed
  from Cons show ?case
    using company_item_log [of d item] other by (auto simp: no_where_def)
qed

lemma technician_logs_distinct:
  "distinct us \<Longrightarrow>
   distinct (concat (map (\<lambda>u. fst (technician_item d (Some u, c u))) us)) \<and>
   Ticket_groupBy F_userId \<notin> set (concat (map (\<lambda>u. fst (technician_item d (Some u, c u))) us))"
proof (induction us)
  case Nil
  then show ?case by simp
next
  case (Cons u us)
  have other: "q \<notin> set (fst (technician_item d (Some u, c u)))"
    if "q \<in> set (concat (map (\<lambda>u. fst (technician_item d (Some u, c u))) us))" for q
  proof -
    from that obtain u' where "u' \<in> set us" "q \<in> set (fst (technician_item d (Some u', c u')))"
      by auto
    moreover from this(1) Cons.prems have "u' \<noteq> u"
      by auto
    ultimately show ?thesis
      using technician_item_log [of d u "c u"] technician_item_log [of d u' "c u'"]
      by (auto simp: no_where_def)
  qed
  from Cons show ?case
    using technician_item_log [of d u "c u"] other by (auto simp: no_where_def)
qed

lemma getCompanySummary_queries: "distinct (fst (getCompanySummary d))"
proof -
  have "distinct (map fst (group_count clientId (tickets d)))"
    by (simp add: group_count_map o_def)
  from company_logs_distinct [OF this, of d] show ?thesis
    by (simp add: getCompanySummary_def return_def try_catch_log
        prisma_ticket_groupBy_clientId_def run_query_def await_log promise_all_log o_def
        split: sum.splits)
qed

lemma getTechnicianPerformance_queries: "distinct (fst (getTechnicianPerformance d))"
proof -
  let ?ks = "remdups (map userId (tickets d))"
  let ?assigned = "map the (filter (\<lambda>k. k \<noteq> None) ?ks)"
  let ?cnt = "\<lambda>k. length (filter (\<lambda>t. userId t = k) (tickets d))"
  have items: "filter (\<lambda>item. fst item \<noteq> None) (group_count userId (tickets d)) =
               map (\<lambda>u. (Some u, ?cnt (Some u))) ?assigned"
    by (simp add: group_count_map filter_map o_def somes_map [symmetric])
  have "fst (getTechnicianPerformance d) =
          Ticket_groupBy F_userId #
          (if failing d (Ticket_groupBy F_userId) then []
           else concat (map fst (map (technician_item d)
                  (filter (\<lambda>item. fst item \<noteq> None) (group_count userId (tickets d))))))"
    by (simp add: getTechnicianPerformance_def Let_def return_def try_catch_log
        prisma_ticket_groupBy_userId_def run_query_def await_log promise_all_log
        split: sum.splits del: not_None_eq)
  then have log: "fst (getTechnicianPerformance d) =
          Ticket_groupBy F_userId #
          (if failing d (Ticket_groupBy F_userId) then []
           else concat (map (\<lambda>u. fst (technician_item d (Some u, ?cnt (Some u)))) ?assigned))"
    unfolding items map_map o_def .
  have "distinct ?assigned"
    by (rule somes_distinct) simp
  from technician_logs_distinct [OF this, of d "\<lambda>u. ?cnt (Some u)"] show ?thesis
    unfolding log by simp
qed

lemma queries_distinct: "distinct (fst (aggregation ticketMetadata rep d))"
proof (cases rep)
  case RecentTickets
  then show ?thesis
    by (simp add: getRecentTickets_def return_def try_catch_log prisma_ticket_findMany_recent_def
        run_query_def await_log)
next
  case Summary
  then show ?thesis
    by (simp add: getSummary_def return_def try_catch_log prisma_ticket_count_def
        run_query_def await_log no_where_def)
next
  case ResolutionRate
  then show ?thesis
    by (simp add: getResolutionRate_def return_def try_catch_log prisma_ticket_count_def
        run_query_def await_log no_where_def Let_def)
next
  case MonthlySummary
  then show ?thesis
    by (simp add: getMonthlySummary_def return_def try_catch_log prisma_ticket_groupBy_createdAt_def
        run_query_def await_log Let_def)
next
  case ByCategory
  then show ?thesis
    by (simp add: getByCategory_def return_def try_catch_log prisma_ticket_groupBy_type_def
        run_query_def await_log array_map_category_log split: sum.splits)
next
  case TechnicianPerformance
  then show ?thesis by (simp add: getTechnicianPerformance_queries)
next
  case CompanySummary
  then show ?thesis by (simp add: getCompanySummary_queries)
qed

end
